theory Spec2Isabelle
  imports
    Complex_Main
    "HOL-Library.Char_ord"
    "HOL-Library.List_Lexorder"
    "HOL-Library.Product_Lexorder"
    "HOL-Library.Multiset"
begin

section \<open>Python values shared by the modules\<close>

text \<open>
  A Python \<open>dict\<close> is an association list without repeated keys, in insertion order.
  \<open>dict_get d k v\<close> is \<open>d.get(k, v)\<close>; \<open>dict_set d k v\<close> is \<open>d[k] = v\<close>: an existing key keeps
  its position, a new key goes to the end.  Python floats are idealised as exact reals
  wherever arithmetic is done on them.
\<close>

type_synonym ('k, 'v) dict = "('k \<times> 'v) list"


definition dict_get :: "('k, 'v) dict \<Rightarrow> 'k \<Rightarrow> 'v \<Rightarrow> 'v" where
  "dict_get d k v = (case map_of d k of None \<Rightarrow> v | Some x \<Rightarrow> x)"

fun dict_set :: "('k, 'v) dict \<Rightarrow> 'k \<Rightarrow> 'v \<Rightarrow> ('k, 'v) dict" where
  "dict_set [] k v = [(k, v)]"
| "dict_set ((k', v') # d) k v = (if k' = k then (k, v) # d else (k', v') # dict_set d k v)"

definition dict_has :: "('k, 'v) dict \<Rightarrow> 'k \<Rightarrow> bool" where
  "dict_has d k \<longleftrightarrow> k \<in> set (map fst d)"

section \<open>common/rank\_blender.py\<close>





section \<open>Python and numpy primitives\<close>

datatype py_error = TypeError | ValueError | IndexError | KeyError | AttributeError

text \<open>\<open>xs[:k]\<close> and \<open>xs[-k:]\<close> for a Python int \<open>k\<close> of either sign.\<close>

definition py_take :: "int \<Rightarrow> 'a list \<Rightarrow> 'a list" where
  "py_take k xs = (if 0 \<le> k then take (nat k) xs else take (nat (int (length xs) + k)) xs)"

definition py_last :: "int \<Rightarrow> 'a list \<Rightarrow> 'a list" where
  "py_last k xs =
     (if 0 < k then drop (length xs - nat k) xs
      else if k = 0 then xs
      else drop (nat (- k)) xs)"

text \<open>
  A float64 as numpy sees it.  No arithmetic is done on matrix entries, only comparisons, so
  the finite floats are taken as the reals they denote.  \<open>np_key\<close> is the order numpy sorts by:
  \<open>-inf\<close> below every finite value, \<open>+inf\<close> above, \<open>nan\<close> last.
\<close>

datatype npfloat = NegInf | Fin real | PosInf | NaN

fun np_key :: "npfloat \<Rightarrow> nat \<times> real" where
  "np_key NegInf = (0, 0)"
| "np_key (Fin r) = (1, r)"
| "np_key PosInf = (2, 0)"
| "np_key NaN = (3, 0)"

fun isfinite :: "npfloat \<Rightarrow> bool" where
  "isfinite (Fin r) = True"
| "isfinite x = False"

text \<open>An n-dimensional array: its shape and its entry at each index vector.\<close>

record ndarray =
  shape :: "nat list"
  entry :: "nat list \<Rightarrow> npfloat"

text \<open>The number of rows \<open>a.shape[0]\<close>, and the number of columns of a matrix.\<close>

definition n_samples :: "ndarray \<Rightarrow> nat" where
  "n_samples e = (case shape e of [] \<Rightarrow> 0 | n # ds \<Rightarrow> n)"

definition n_features :: "ndarray \<Rightarrow> nat" where
  "n_features e = (case shape e of [n, d] \<Rightarrow> d | _ \<Rightarrow> 0)"

text \<open>
  The two numpy routines the code calls are library code, not repository code.  They are a
  parameter of the model, constrained only by what numpy documents: \<open>argsort\<close> returns a
  permutation of the positions that puts the values in ascending order (the default kind is
  not stable), and \<open>argpartition a kth\<close> returns a permutation with the element of rank \<open>kth\<close>
  in place, nothing greater before it and nothing smaller after it.
\<close>

record numpy =
  argpartition :: "npfloat list \<Rightarrow> nat \<Rightarrow> nat list"
  argsort :: "npfloat list \<Rightarrow> nat list"

definition argsort_ok :: "(npfloat list \<Rightarrow> nat list) \<Rightarrow> bool" where
  "argsort_ok f \<longleftrightarrow>
     (\<forall>a. distinct (f a) \<and> set (f a) = {..<length a}
          \<and> sorted (map (\<lambda>i. np_key (a ! i)) (f a)))"

definition argpartition_ok :: "(npfloat list \<Rightarrow> nat \<Rightarrow> nat list) \<Rightarrow> bool" where
  "argpartition_ok f \<longleftrightarrow>
     (\<forall>a kth. kth < length a \<longrightarrow>
        distinct (f a kth) \<and> set (f a kth) = {..<length a}
        \<and> (\<forall>i<kth. np_key (a ! (f a kth ! i)) \<le> np_key (a ! (f a kth ! kth)))
        \<and> (\<forall>i<length a. kth < i \<longrightarrow> np_key (a ! (f a kth ! kth)) \<le> np_key (a ! (f a kth ! i))))"

definition numpy_ok :: "numpy \<Rightarrow> bool" where
  "numpy_ok np \<longleftrightarrow> argpartition_ok (argpartition np) \<and> argsort_ok (argsort np)"

text \<open>
  One conforming instance, used to run the model: a sort that keeps equal values in index
  order, as an insertion sort does, the base case of numpy's quicksort on short arrays.  A
  full sort is also a partition at every rank.
\<close>

definition argsort_stable :: "npfloat list \<Rightarrow> nat list" where
  "argsort_stable a = sort_key (\<lambda>i. np_key (a ! i)) [0..<length a]"

definition numpy_stable :: numpy where
  "numpy_stable = \<lparr>argpartition = (\<lambda>a kth. argsort_stable a), argsort = argsort_stable\<rparr>"

text \<open>
  \<open>np.argpartition(a, kth)\<close> with a Python int \<open>kth\<close>: a negative \<open>kth\<close> counts from the end,
  and a \<open>kth\<close> outside the array raises \<open>ValueError\<close>.
\<close>

definition np_argpartition :: "numpy \<Rightarrow> npfloat list \<Rightarrow> int \<Rightarrow> py_error + nat list" where
  "np_argpartition np a kth =
     (let n = int (length a); kth' = (if kth < 0 then kth + n else kth)
      in if kth' < 0 \<or> n \<le> kth' then Inl ValueError
         else Inr (argpartition np a (nat kth')))"

text \<open>Indexing an array by an array of positions, \<open>a[idx]\<close>.\<close>

definition np_take :: "'a list \<Rightarrow> nat list \<Rightarrow> py_error + 'a list" where
  "np_take a idx =
     (if \<forall>i \<in> set idx. i < length a then Inr (map (\<lambda>i. a ! i) idx) else Inl IndexError)"

section \<open>services/api/app/services/cf\_inference.py\<close>

subsection \<open>The artifact loader\<close>

datatype 'a disk_file = Missing | Unreadable | Content 'a

fun path_exists :: "'a disk_file \<Rightarrow> bool" where
  "path_exists Missing = False"
| "path_exists f = True"

text \<open>
  The three files under \<open>CF_ARTIFACTS_DIR\<close>.  The id lists are taken after \<open>str\<close> has been
  applied to their entries.
\<close>

record cf_files =
  scores_npy :: "ndarray disk_file"
  user_ids_json :: "string list disk_file"
  item_ids_json :: "string list disk_file"

text \<open>
  \<^verbatim>\<open>{str(u): i for i, u in enumerate(user_ids)}\<close> and
  \<^verbatim>\<open>{i: str(it) for i, it in enumerate(item_ids)}\<close>
\<close>

definition build_user_to_idx :: "string list \<Rightarrow> (string, nat) dict" where
  "build_user_to_idx user_ids = foldl (\<lambda>d (i, u). dict_set d u i) [] (enumerate 0 user_ids)"

definition build_idx_to_item :: "string list \<Rightarrow> (nat, string) dict" where
  "build_idx_to_item item_ids = foldl (\<lambda>d (i, it). dict_set d i it) [] (enumerate 0 item_ids)"

text \<open>
  A missing file gives \<open>(None, None, None)\<close>; so does any exception while reading, and so
  does a matrix of the wrong shape.
\<close>

definition try_load_artifacts ::
  "cf_files \<Rightarrow> (ndarray \<times> (string, nat) dict \<times> (nat, string) dict) option" where
  "try_load_artifacts fs =
     (if \<not> (path_exists (scores_npy fs) \<and> path_exists (user_ids_json fs)
             \<and> path_exists (item_ids_json fs))
      then None
      else case (scores_npy fs, user_ids_json fs, item_ids_json fs) of
        (Content sc, Content user_ids, Content item_ids) \<Rightarrow>
          (let u2i = build_user_to_idx user_ids;
               i2it = build_idx_to_item item_ids
           in if length (shape sc) \<noteq> 2 \<or> shape sc \<noteq> [length u2i, length i2it] then None
              else Some (sc, u2i, i2it))
      | _ \<Rightarrow> None)"

subsection \<open>The recommender object\<close>

text \<open>
  A Python \<open>set\<close> of strings is a list without repetitions; the order in which Python
  iterates over it is not specified, and nothing below depends on it.
\<close>

record cf_inference =
  scores :: "ndarray option"
  user_to_idx :: "(string, nat) dict option"
  idx_to_item :: "(nat, string) dict option"
  has_artifacts :: bool
  user_items :: "(string, string list) dict"
  item_pop :: "(string, nat) dict"
  co_counts :: "(string, (string, nat) dict) dict"
  item_to_idx :: "(string, nat) dict option"

text \<open>
  The ratings table after \<open>_normalize_ratings_columns\<close> and the selection of the columns
  \<open>user_id\<close> and \<open>item_id\<close>: one pair of strings per row.
\<close>

type_synonym ratings = "(string \<times> string) list"

text \<open>\<open>df.groupby("user_id")\<close>: one group per user, in ascending key order.\<close>

definition group_keys :: "ratings \<Rightarrow> string list" where
  "group_keys df = sort (remdups (map fst df))"

definition group_items :: "ratings \<Rightarrow> string \<Rightarrow> string list" where
  "group_items df uid = map snd (filter (\<lambda>(u, i). u = uid) df)"

definition build_user_items :: "ratings \<Rightarrow> (string, string list) dict" where
  "build_user_items df =
     foldl (\<lambda>d uid. dict_set d uid (remdups (group_items df uid))) [] (group_keys df)"

text \<open>\<open>df["item_id"].astype(str).value_counts().to_dict()\<close>: rows per item.\<close>

definition value_counts :: "ratings \<Rightarrow> (string, nat) dict" where
  "value_counts df = map (\<lambda>it. (it, count_list (map snd df) it)) (remdups (map snd df))"

text \<open>The co-occurrence loops: \<open>j\<close> over one user's items for a fixed \<open>i\<close>, then \<open>i\<close>, then users.\<close>

definition co_inner :: "string list \<Rightarrow> nat \<Rightarrow> (string, nat) dict \<Rightarrow> (string, nat) dict" where
  "co_inner items_list i acc =
     foldl (\<lambda>acc j. if i = j then acc
                     else let b = items_list ! j in dict_set acc b (dict_get acc b 0 + 1))
           acc [0..<length items_list]"

definition co_user ::
  "(string, (string, nat) dict) dict \<Rightarrow> string list \<Rightarrow> (string, (string, nat) dict) dict" where
  "co_user co items_list =
     foldl (\<lambda>co i. let a = items_list ! i; acc = dict_get co a []
                    in dict_set co a (co_inner items_list i acc))
           co [0..<length items_list]"

definition build_co_counts ::
  "(string, string list) dict \<Rightarrow> (string, (string, nat) dict) dict" where
  "build_co_counts ui = foldl co_user [] (map snd ui)"

definition init :: "cf_files \<Rightarrow> ratings \<Rightarrow> cf_inference" where
  "init fs df =
     (let loaded = try_load_artifacts fs;
          ui = build_user_items df
      in \<lparr>scores = map_option fst loaded,
          user_to_idx = map_option (fst \<circ> snd) loaded,
          idx_to_item = map_option (snd \<circ> snd) loaded,
          has_artifacts = (loaded \<noteq> None),
          user_items = ui,
          item_pop = value_counts df,
          co_counts = build_co_counts ui,
          item_to_idx =
            map_option (\<lambda>(sc, u2i, i2it). foldl (\<lambda>d (k, v). dict_set d v k) [] i2it) loaded\<rparr>)"

text \<open>The directory without the artifact files.\<close>

definition no_artifacts :: cf_files where
  "no_artifacts = \<lparr>scores_npy = Missing, user_ids_json = Missing, item_ids_json = Missing\<rparr>"

subsection \<open>The fallback path\<close>

definition popular_only :: "cf_inference \<Rightarrow> int \<Rightarrow> string list" where
  "popular_only st k =
     map fst (py_take k (sort_key (\<lambda>(it, cnt). (- int cnt, it)) (item_pop st)))"

definition co_scores :: "cf_inference \<Rightarrow> string list \<Rightarrow> (string, real) dict" where
  "co_scores st seen =
     foldl (\<lambda>sc a.
              foldl (\<lambda>sc (b, c). if b \<in> set seen then sc
                                  else dict_set sc b (dict_get sc b 0 + real c))
                    sc (dict_get (co_counts st) a []))
           [] seen"

definition pop_prior :: "cf_inference \<Rightarrow> string list \<Rightarrow> (string, real) dict \<Rightarrow> (string, real) dict" where
  "pop_prior st seen sc0 =
     foldl (\<lambda>sc (it, pop). if it \<in> set seen then sc
                            else dict_set sc it (dict_get sc it 0 + 0.01 * real pop))
           sc0 (item_pop st)"

definition cooccurrence_recs :: "cf_inference \<Rightarrow> string \<Rightarrow> int \<Rightarrow> string list" where
  "cooccurrence_recs st user_id k =
     (let seen = dict_get (user_items st) user_id []
      in if seen = [] then popular_only st k
         else map fst (py_take k (sort_key (\<lambda>(it, s). (- s, it))
                                     (pop_prior st seen (co_scores st seen)))))"

subsection \<open>The artifact path\<close>

text \<open>\<open>row[j] = -np.inf\<close> for the column of every seen item that has one.\<close>

fun mask_seen :: "(string, nat) dict \<Rightarrow> npfloat list \<Rightarrow> string list \<Rightarrow> py_error + npfloat list" where
  "mask_seen i2idx row [] = Inr row"
| "mask_seen i2idx row (it # seen) =
     (case map_of i2idx it of
        None \<Rightarrow> mask_seen i2idx row seen
      | Some j \<Rightarrow> if j < length row then mask_seen i2idx (row[j := NegInf]) seen
                  else Inl IndexError)"

text \<open>\<open>self.scores[uidx].copy()\<close> on the two-dimensional matrix the loader accepted.\<close>

definition score_row :: "ndarray \<Rightarrow> nat \<Rightarrow> py_error + npfloat list" where
  "score_row sc uidx =
     (case shape sc of
        [n_users, n_items] \<Rightarrow>
          if uidx < n_users then Inr (map (\<lambda>j. entry sc [uidx, j]) [0..<n_items])
          else Inl IndexError
      | _ \<Rightarrow> Inl IndexError)"

text \<open>The last line: the ids of the chosen columns whose masked score is finite.\<close>

fun finite_items :: "(nat, string) dict \<Rightarrow> npfloat list \<Rightarrow> nat list \<Rightarrow> py_error + string list" where
  "finite_items i2it row [] = Inr []"
| "finite_items i2it row (j # js) =
     (if j < length row then
        if isfinite (row ! j) then
          (case map_of i2it j of
             None \<Rightarrow> Inl KeyError
           | Some it \<Rightarrow> (case finite_items i2it row js of
                          Inl e \<Rightarrow> Inl e
                        | Inr its \<Rightarrow> Inr (it # its)))
        else finite_items i2it row js
      else Inl IndexError)"

definition top_k :: "numpy \<Rightarrow> npfloat list \<Rightarrow> int \<Rightarrow> py_error + nat list" where
  "top_k np row k =
     (case np_argpartition np row (- k) of
        Inl e \<Rightarrow> Inl e
      | Inr p \<Rightarrow>
          (let topk_idx = py_last k p
           in case np_take row topk_idx of
                Inl e \<Rightarrow> Inl e
              | Inr vals \<Rightarrow> np_take topk_idx (rev (argsort np vals))))"

definition recs_from_artifacts ::
  "numpy \<Rightarrow> cf_inference \<Rightarrow> string \<Rightarrow> int \<Rightarrow> py_error + string list" where
  "recs_from_artifacts np st user_id k =
     (case (scores st, user_to_idx st, idx_to_item st, item_to_idx st) of
        (Some sc, Some u2i, Some i2it, Some i2idx) \<Rightarrow>
          (case map_of u2i user_id of
             None \<Rightarrow> Inr (popular_only st k)
           | Some uidx \<Rightarrow>
               (case score_row sc uidx of
                  Inl e \<Rightarrow> Inl e
                | Inr row0 \<Rightarrow>
                    (case mask_seen i2idx row0 (dict_get (user_items st) user_id []) of
                       Inl e \<Rightarrow> Inl e
                     | Inr row \<Rightarrow>
                         (case top_k np row k of
                            Inl e \<Rightarrow> Inl e
                          | Inr topk_idx \<Rightarrow> finite_items i2it row topk_idx))))
      | _ \<Rightarrow> Inl TypeError)"

subsection \<open>The public method\<close>

text \<open>
  The \<open>try\<close> around the artifact path catches every exception and computes the call on
  the fallback path; nothing outside it can raise.
\<close>

definition recommend_for_user ::
  "numpy \<Rightarrow> cf_inference \<Rightarrow> string \<Rightarrow> int \<Rightarrow> py_error + (string, string) dict list" where
  "recommend_for_user np st user_id k =
     (let recs =
        (if has_artifacts st then
           (case recs_from_artifacts np st user_id k of
              Inr r \<Rightarrow> r
            | Inl e \<Rightarrow> cooccurrence_recs st user_id k)
         else cooccurrence_recs st user_id k)
      in Inr (map (\<lambda>it. [(''item_id'', it)]) (py_take k recs)))"

subsection \<open>The module-level function\<close>

text \<open>
  How Python binds the arguments of a call to the parameters of
  \<^verbatim>\<open>def recommend_for_user(self, user_id: str, k: int = 10)\<close>: positional arguments in
  order, then keyword arguments by name, then defaults; an argument too many, an unknown or
  repeated name, or a parameter left without a value raises \<open>TypeError\<close>.
\<close>

datatype py_val = PStr string | PInt int | PObj cf_inference

fun bind_positional :: "string list \<Rightarrow> py_val list \<Rightarrow> py_error + (string, py_val) dict" where
  "bind_positional names [] = Inr []"
| "bind_positional [] (v # vs) = Inl TypeError"
| "bind_positional (n # names) (v # vs) =
     (case bind_positional names vs of Inl e \<Rightarrow> Inl e | Inr env \<Rightarrow> Inr ((n, v) # env))"

fun bind_keywords ::
  "string list \<Rightarrow> (string, py_val) dict \<Rightarrow> (string \<times> py_val) list \<Rightarrow> py_error + (string, py_val) dict" where
  "bind_keywords names env [] = Inr env"
| "bind_keywords names env ((n, v) # kws) =
     (if n \<notin> set names then Inl TypeError
      else if dict_has env n then Inl TypeError
      else bind_keywords names (dict_set env n v) kws)"

fun bind_defaults ::
  "(string \<times> py_val option) list \<Rightarrow> (string, py_val) dict \<Rightarrow> py_error + (string, py_val) dict" where
  "bind_defaults [] env = Inr env"
| "bind_defaults ((n, dflt) # ps) env =
     (if dict_has env n then bind_defaults ps env
      else case dflt of
             None \<Rightarrow> Inl TypeError
           | Some v \<Rightarrow> bind_defaults ps (dict_set env n v))"

definition bind_args ::
  "(string \<times> py_val option) list \<Rightarrow> py_val list \<Rightarrow> (string \<times> py_val) list
     \<Rightarrow> py_error + (string, py_val) dict" where
  "bind_args params args kwargs =
     (case bind_positional (map fst params) args of
        Inl e \<Rightarrow> Inl e
      | Inr env \<Rightarrow>
          (case bind_keywords (map fst params) env kwargs of
             Inl e \<Rightarrow> Inl e
           | Inr env' \<Rightarrow> bind_defaults params env'))"

definition recommend_for_user_params :: "(string \<times> py_val option) list" where
  "recommend_for_user_params = [(''self'', None), (''user_id'', None), (''k'', Some (PInt 10))]"

text \<open>
  The function stored in the class under the name \<open>recommend_for_user\<close>: it binds its
  arguments and runs the method body on them.  A \<open>self\<close> that is no \<open>CFInference\<close> has no
  attribute \<open>has_artifacts\<close>.
\<close>

definition CFInference_recommend_for_user ::
  "numpy \<Rightarrow> py_val list \<Rightarrow> (string \<times> py_val) list \<Rightarrow> py_error + (string, string) dict list" where
  "CFInference_recommend_for_user np args kwargs =
     (case bind_args recommend_for_user_params args kwargs of
        Inl e \<Rightarrow> Inl e
      | Inr env \<Rightarrow>
          (case (map_of env ''self'', map_of env ''user_id'', map_of env ''k'') of
             (Some (PObj st), Some (PStr user_id), Some (PInt k)) \<Rightarrow> recommend_for_user np st user_id k
           | (Some (PObj st), _, _) \<Rightarrow> Inl TypeError
           | _ \<Rightarrow> Inl AttributeError))"

text \<open>
  Looking the attribute up on an instance gives a bound method, which passes the instance as
  the first argument; looking it up on the class gives the function as it is.
\<close>

datatype receiver = TheClass | Instance cf_inference

definition getattr_recommend_for_user ::
  "numpy \<Rightarrow> receiver \<Rightarrow> py_val list \<Rightarrow> (string \<times> py_val) list \<Rightarrow> py_error + (string, string) dict list" where
  "getattr_recommend_for_user np recv args kwargs =
     (case recv of
        TheClass \<Rightarrow> CFInference_recommend_for_user np args kwargs
      | Instance st \<Rightarrow> CFInference_recommend_for_user np (PObj st # args) kwargs)"

text \<open>\<^verbatim>\<open>CFRecommender = CFInference\<close>: the class, not an object of it.\<close>

definition CFRecommender :: receiver where
  "CFRecommender = TheClass"

text \<open>\<^verbatim>\<open>return CFRecommender.recommend_for_user(user_id, k=k)\<close>\<close>

definition module_recommend_for_user ::
  "numpy \<Rightarrow> string \<Rightarrow> int \<Rightarrow> py_error + (string, string) dict list" where
  "module_recommend_for_user np user_id k =
     getattr_recommend_for_user np CFRecommender [PStr user_id] [(''k'', PInt k)]"

section \<open>embedding\_store.py\<close>

text \<open>
  \<open>NearestNeighbors.kneighbors\<close> is library code: a parameter that, asked for \<open>n\<close> neighbours
  of a vector among the \<open>N\<close> fitted rows with \<open>1 \<le> n \<le> N\<close>, returns \<open>n\<close> different row
  positions; any other \<open>n\<close> raises \<open>ValueError\<close>.
\<close>

type_synonym kneighbors = "ndarray \<Rightarrow> npfloat list \<Rightarrow> nat \<Rightarrow> nat list"

definition kneighbors_ok :: "kneighbors \<Rightarrow> bool" where
  "kneighbors_ok kn \<longleftrightarrow>
     (\<forall>e vec n. 1 \<le> n \<and> n \<le> n_samples e \<longrightarrow>
        length (kn e vec n) = n \<and> distinct (kn e vec n) \<and> set (kn e vec n) \<subseteq> {..<n_samples e})"

definition nn_kneighbors :: "kneighbors \<Rightarrow> ndarray \<Rightarrow> npfloat list \<Rightarrow> int \<Rightarrow> py_error + nat list" where
  "nn_kneighbors kn e vec n =
     (if n \<le> 0 \<or> int (n_samples e) < n then Inl ValueError else Inr (kn e vec (nat n)))"

text \<open>One conforming instance, to run the model: the first \<open>n\<close> rows.\<close>

definition kneighbors_first :: kneighbors where
  "kneighbors_first e vec n = [0..<n]"

record embedding_store =
  emb :: "ndarray option"
  id_map :: "(int, string) dict"
  nn :: "ndarray option"

record emb_files =
  item_vectors_npy :: "ndarray disk_file"
  id_mapping_json :: "(int \<times> string) list disk_file"

text \<open>
  \<open>_load\<close>: with a file missing the store is disabled; a file that cannot be read raises,
  and so does \<open>nn.fit\<close> on anything but a matrix with at least one row and one column.
  The mapping file is taken with its keys already converted by \<open>int\<close>.
\<close>

definition embedding_load :: "emb_files \<Rightarrow> py_error + embedding_store" where
  "embedding_load fs =
     (if \<not> (path_exists (item_vectors_npy fs) \<and> path_exists (id_mapping_json fs))
      then Inr \<lparr>emb = None, id_map = [], nn = None\<rparr>
      else case (item_vectors_npy fs, id_mapping_json fs) of
        (Content e, Content raw_map) \<Rightarrow>
          (case shape e of
             [n, d] \<Rightarrow>
               if n = 0 \<or> d = 0 then Inl ValueError
               else Inr \<lparr>emb = Some e,
                         id_map = foldl (\<lambda>d (k, v). dict_set d k v) [] raw_map,
                         nn = Some e\<rparr>
           | _ \<Rightarrow> Inl ValueError)
      | _ \<Rightarrow> Inl ValueError)"

text \<open>\<open>self.emb[idx]\<close> for a Python int: a negative index counts from the last row.\<close>

definition emb_row :: "ndarray \<Rightarrow> int \<Rightarrow> py_error + npfloat list" where
  "emb_row e idx =
     (let n = int (n_samples e); i = (if idx < 0 then idx + n else idx)
      in if i < 0 \<or> n \<le> i then Inl IndexError
         else Inr (map (\<lambda>j. entry e [nat i, j]) [0..<n_features e]))"

fun similar_loop ::
  "(int, string) dict \<Rightarrow> int \<Rightarrow> int \<Rightarrow> string list \<Rightarrow> nat list \<Rightarrow> py_error + string list" where
  "similar_loop idm idx k out [] = Inr out"
| "similar_loop idm idx k out (i # rest) =
     (if int i = idx then similar_loop idm idx k out rest
      else case map_of idm (int i) of
             None \<Rightarrow> Inl KeyError
           | Some it \<Rightarrow>
               (let out' = out @ [it]
                in if k \<le> int (length out') then Inr out'
                   else similar_loop idm idx k out' rest))"

definition embed_similar :: "kneighbors \<Rightarrow> embedding_store \<Rightarrow> string \<Rightarrow> int \<Rightarrow> py_error + string list" where
  "embed_similar kn es item_id k =
     (case (emb es, nn es) of
        (Some e, Some fitted) \<Rightarrow>
          (let rev_map = foldl (\<lambda>d (k, v). dict_set d v k) [] (id_map es)
           in case map_of rev_map item_id of
                None \<Rightarrow> Inr []
              | Some idx \<Rightarrow>
                  (case emb_row e idx of
                     Inl err \<Rightarrow> Inl err
                   | Inr vec \<Rightarrow>
                       (case nn_kneighbors kn fitted vec (min (k + 1) (int (n_samples e))) of
                          Inl err \<Rightarrow> Inl err
                        | Inr indices \<Rightarrow> similar_loop (id_map es) idx k [] indices)))
      | _ \<Rightarrow> Inr [])"

section \<open>hybrid\_ranker.py\<close>

subsection \<open>The catalogue\<close>

text \<open>A row of the normalised items table, and the dict \<open>get_item\<close> returns.\<close>

record catalog_row =
  row_item_id :: string
  row_title :: string
  row_description :: string
  row_text :: string

record item =
  item_id :: string
  title :: string
  description :: string

record items_repo =
  items_df :: "catalog_row list"
  by_id :: "(string, item) dict"

definition items_repo_init :: "catalog_row list \<Rightarrow> items_repo" where
  "items_repo_init rows =
     \<lparr>items_df = rows,
      by_id = foldl (\<lambda>d row. dict_set d (row_item_id row)
                       \<lparr>item_id = row_item_id row, title = row_title row,
                        description = row_description row\<rparr>) [] rows\<rparr>"

definition get_item :: "items_repo \<Rightarrow> string \<Rightarrow> item option" where
  "get_item repo iid = map_of (by_id repo) iid"

subsection \<open>The tokenizer\<close>

definition is_alnum :: "char \<Rightarrow> bool" where
  "is_alnum c \<longleftrightarrow>
     (let n = (of_char c :: nat)
      in (48 \<le> n \<and> n \<le> 57) \<or> (65 \<le> n \<and> n \<le> 90) \<or> (97 \<le> n \<and> n \<le> 122))"

definition ascii_lower :: "char \<Rightarrow> char" where
  "ascii_lower c =
     (let n = (of_char c :: nat) in if 65 \<le> n \<and> n \<le> 90 then char_of (n + 32) else c)"

text \<open>\<open>TOKENIZER.findall\<close>: the maximal runs of \<open>[A-Za-z0-9]\<close>, left to right.\<close>

fun findall :: "string \<Rightarrow> string \<Rightarrow> string list" where
  "findall cur [] = (if cur = [] then [] else [cur])"
| "findall cur (c # cs) =
     (if is_alnum c then findall (cur @ [c]) cs
      else if cur = [] then findall [] cs
      else cur # findall [] cs)"

definition tokenize :: "string \<Rightarrow> string list" where
  "tokenize text = map (map ascii_lower) (findall [] text)"

subsection \<open>The ranker\<close>

text \<open>
  \<open>BM25Okapi\<close> is library code: a parameter that turns a tokenised corpus into a scorer
  returning one float per document.
\<close>

type_synonym bm25okapi = "string list list \<Rightarrow> string list \<Rightarrow> npfloat list"

definition bm25_ok :: "bm25okapi \<Rightarrow> bool" where
  "bm25_ok b \<longleftrightarrow> (\<forall>corpus q. length (b corpus q) = length corpus)"

record hybrid_ranker =
  items :: items_repo
  bm25 :: "(string list \<Rightarrow> npfloat list) option"
  embed :: embedding_store

definition hybrid_init :: "bm25okapi \<Rightarrow> catalog_row list \<Rightarrow> embedding_store \<Rightarrow> hybrid_ranker" where
  "hybrid_init b rows es =
     (let tokenized_corpus = map (\<lambda>r. tokenize (row_text r)) rows
      in \<lparr>items = items_repo_init rows,
          bm25 = (if 0 < length tokenized_corpus then Some (b tokenized_corpus) else None),
          embed = es\<rparr>)"

record search_result =
  res_item_id :: string
  res_title :: string
  res_description :: string
  res_score :: "npfloat option"

text \<open>\<open>" ".join(q_tokens)\<close> and the substring test behind \<open>str.contains\<close>.\<close>

fun join_space :: "string list \<Rightarrow> string" where
  "join_space [] = []"
| "join_space [t] = t"
| "join_space (t # ts) = t @ '' '' @ join_space ts"

fun contains :: "string \<Rightarrow> string \<Rightarrow> bool" where
  "contains [] pat = (pat = [])"
| "contains (c # cs) pat = (take (length pat) (c # cs) = pat \<or> contains cs pat)"

definition search :: "numpy \<Rightarrow> hybrid_ranker \<Rightarrow> string \<Rightarrow> int \<Rightarrow> py_error + search_result list" where
  "search np hr query k =
     (let q_tokens = tokenize query
      in if q_tokens = [] then Inr []
         else case bm25 hr of
           None \<Rightarrow>
             Inr (map (\<lambda>row. \<lparr>res_item_id = row_item_id row, res_title = row_title row,
                               res_description = row_description row, res_score = Some (Fin 0)\<rparr>)
                      (py_take k (filter (\<lambda>row. contains (row_text row) (join_space q_tokens))
                                         (items_df (items hr)))))
         | Some get_scores \<Rightarrow>
             (let vals = get_scores q_tokens
              in if length vals = 0 then Inr []
                 else let top_idx = py_take k (rev (argsort np vals))
                      in if \<forall>i \<in> set top_idx. i < length (items_df (items hr)) \<and> i < length vals
                         then Inr (map (\<lambda>i. let row = items_df (items hr) ! i
                                            in \<lparr>res_item_id = row_item_id row, res_title = row_title row,
                                                res_description = row_description row,
                                                res_score = Some (vals ! i)\<rparr>) top_idx)
                         else Inl IndexError))"

definition hybrid_similar ::
  "kneighbors \<Rightarrow> hybrid_ranker \<Rightarrow> string \<Rightarrow> int \<Rightarrow> py_error + search_result list" where
  "hybrid_similar kn hr iid k =
     (case embed_similar kn (embed hr) iid k of
        Inl e \<Rightarrow> Inl e
      | Inr neigh_ids \<Rightarrow>
          Inr (concat (map (\<lambda>nid. case get_item (items hr) nid of
                                    None \<Rightarrow> []
                                  | Some it \<Rightarrow> [\<lparr>res_item_id = item_id it, res_title = title it,
                                                 res_description = description it, res_score = None\<rparr>])
                           neigh_ids)))"

section \<open>eval.py\<close>

text \<open>
  A row of the ratings table as \<open>_choose_holdout\<close> sees it: every cell was read as a string
  (\<open>dtype=str\<close>); the rating has been through \<open>pd.to_numeric(errors="coerce")\<close>, the timestamp is
  still the string of the file.  \<open>None\<close> is a missing cell (\<open>NaN\<close>).
\<close>

record rating_row =
  r_user :: string
  r_item :: string
  r_rating :: "real option"
  r_timestamp :: "string option"

record ratings_table =
  has_rating :: bool
  has_timestamp :: bool
  table_rows :: "rating_row list"

text \<open>
  \<open>sort_values("timestamp")\<close> orders the strings as Python compares them, character by
  character, with missing cells last.
\<close>

definition ts_key :: "rating_row \<Rightarrow> nat \<times> string" where
  "ts_key r = (case r_timestamp r of None \<Rightarrow> (1, []) | Some t \<Rightarrow> (0, t))"

definition is_positive :: "rating_row \<Rightarrow> bool" where
  "is_positive r \<longleftrightarrow> (case r_rating r of None \<Rightarrow> False | Some x \<Rightarrow> 4 \<le> x)"

text \<open>
  \<open>sample(1, random_state=42)\<close> picks a position that depends only on the number of rows;
  which one is pandas' business, so the pick is a parameter \<open>pick\<close> with \<open>pick n < n\<close>.
\<close>

definition test_row :: "(nat \<Rightarrow> nat) \<Rightarrow> ratings_table \<Rightarrow> rating_row list \<Rightarrow> rating_row" where
  "test_row pick t g =
     (if has_timestamp t then last (sort_key ts_key g)
      else if has_rating t \<and> (\<exists>r \<in> set g. r_rating r \<noteq> None) then
        (let pos = (if \<exists>r \<in> set g. is_positive r then filter is_positive g else g)
         in pos ! pick (length pos))
      else g ! pick (length g))"

definition choose_holdout :: "(nat \<Rightarrow> nat) \<Rightarrow> ratings_table \<Rightarrow> (string \<times> string) list" where
  "choose_holdout pick t =
     concat (map (\<lambda>uid. let g = filter (\<lambda>r. r_user r = uid) (table_rows t)
                         in if length g < 2 then [] else [(uid, r_item (test_row pick t g))])
                 (sort (remdups (map r_user (table_rows t)))))"

text \<open>The guard of \<open>evaluate_cf\<close> on the holdout; the metrics that follow are not modelled.\<close>

definition evaluate_cf_holdout :: "(nat \<Rightarrow> nat) \<Rightarrow> ratings_table \<Rightarrow> py_error + (string \<times> string) list" where
  "evaluate_cf_holdout pick t =
     (let holdout = choose_holdout pick t
      in if length holdout = 0 then Inl ValueError else Inr holdout)"

section \<open>The notions of the specification, on the ratings table\<close>

text \<open>
  Global popularity of an item: the number of interactions with it.  The popularity ranking
  lists every item once, by descending popularity and, among equally popular items, by
  ascending \<open>item_id\<close>.
\<close>

definition popularity :: "ratings \<Rightarrow> string \<Rightarrow> nat" where
  "popularity df it = count_list (map snd df) it"

definition popularity_ranking :: "ratings \<Rightarrow> string list" where
  "popularity_ranking df = sort_key (\<lambda>it. (- int (popularity df it), it)) (remdups (map snd df))"

text \<open>
  A valid score artifact: the three files are read, the matrix has one row per listed user
  and one column per listed item, and no id is listed twice (a user has one row, an item one
  column).
\<close>

definition valid_artifact :: "cf_files \<Rightarrow> ndarray \<Rightarrow> string list \<Rightarrow> string list \<Rightarrow> bool" where
  "valid_artifact fs sc user_ids item_ids \<longleftrightarrow>
     scores_npy fs = Content sc \<and> user_ids_json fs = Content user_ids
     \<and> item_ids_json fs = Content item_ids
     \<and> shape sc = [length user_ids, length item_ids]
     \<and> distinct user_ids \<and> distinct item_ids"

text \<open>
  The score row of user \<open>uid\<close> (row \<open>uidx\<close>) with the column of every item the user has
  interacted with set to \<open>-inf\<close>.
\<close>

definition masked_row :: "ndarray \<Rightarrow> string list \<Rightarrow> ratings \<Rightarrow> nat \<Rightarrow> string \<Rightarrow> npfloat list" where
  "masked_row sc item_ids df uidx uid =
     map (\<lambda>j. if (uid, item_ids ! j) \<in> set df then NegInf else entry sc [uidx, j])
         [0..<length item_ids]"

text \<open>
  The selection as the specification words it: the columns of finite masked score, by
  descending score and, among equal scores, in column order; the first \<open>k\<close> of them.
\<close>

definition fin_val :: "npfloat \<Rightarrow> real" where
  "fin_val x = (case x of Fin r \<Rightarrow> r | _ \<Rightarrow> 0)"

definition claimed_top_k :: "npfloat list \<Rightarrow> nat \<Rightarrow> nat list" where
  "claimed_top_k row k =
     take k (sort_key (\<lambda>j. (- fin_val (row ! j), j))
               (filter (\<lambda>j. isfinite (row ! j)) [0..<length row]))"





text \<open>
  An embedding table that agrees with its id mapping: the mapping has one entry for each of
  the \<open>N\<close> vectors, under the keys \<open>0 .. N-1\<close>, and names no item twice.
\<close>

definition consistent_store :: "embedding_store \<Rightarrow> bool" where
  "consistent_store es \<longleftrightarrow>
     (case emb es of
        None \<Rightarrow> True
      | Some e \<Rightarrow>
          distinct (map fst (id_map es))
          \<and> fst ` set (id_map es) = int ` {..<n_samples e}
          \<and> distinct (map snd (id_map es)))"

text \<open>A timestamp of decimal digits read as the number of seconds it writes.\<close>

definition timestamp_value :: "string \<Rightarrow> nat" where
  "timestamp_value s = foldl (\<lambda>n c. 10 * n + (of_char c - 48)) 0 s"

section \<open>Example inputs\<close>

text \<open>
  The interactions \<open>{(u1, A), (u1, B), (u2, A)}\<close>, and a score artifact shaped for 3 users and
  2 items beside id lists of 3 users and 3 items.
\<close>

definition small_ratings :: ratings where
  "small_ratings = [(''u1'', ''A''), (''u1'', ''B''), (''u2'', ''A'')]"

definition ones_3x2 :: ndarray where
  "ones_3x2 = \<lparr>shape = [3, 2], entry = (\<lambda>ix. Fin 1)\<rparr>"

definition mismatched_files :: cf_files where
  "mismatched_files =
     \<lparr>scores_npy = Content ones_3x2,
      user_ids_json = Content [''u1'', ''u2'', ''u3''],
      item_ids_json = Content [''A'', ''B'', ''C'']\<rparr>"

text \<open>
  A score artifact for the users \<open>u1, u2\<close> and the items \<open>A, B, C\<close>; \<open>u2\<close> scores \<open>B\<close> and
  \<open>C\<close> equally.
\<close>

definition matrix :: "real list list \<Rightarrow> ndarray" where
  "matrix rows =
     \<lparr>shape = [length rows, (case rows of [] \<Rightarrow> 0 | r # rs \<Rightarrow> length r)],
      entry = (\<lambda>ix. case ix of [i, j] \<Rightarrow> Fin (rows ! i ! j) | _ \<Rightarrow> NaN)\<rparr>"

definition demo_scores :: ndarray where
  "demo_scores = matrix [[9, 5, 7], [2, 8, 8]]"

definition demo_files :: cf_files where
  "demo_files =
     \<lparr>scores_npy = Content demo_scores,
      user_ids_json = Content [''u1'', ''u2''],
      item_ids_json = Content [''A'', ''B'', ''C'']\<rparr>"

text \<open>
  An artifact whose item list names \<open>A\<close> twice, for \<open>u9\<close>, a user without interactions, and
  for \<open>u1\<close>.
\<close>

definition dup_files :: cf_files where
  "dup_files =
     \<lparr>scores_npy = Content (matrix [[2, 1], [2, 1]]),
      user_ids_json = Content [''u9'', ''u1''],
      item_ids_json = Content [''A'', ''A'']\<rparr>"


text \<open>
  The two-item catalogue of the specification, and a stand-in for the BM25 scorer: the number
  of query tokens a document holds.  Like BM25 it scores every document 0 when no query token
  occurs in the corpus.
\<close>

definition two_rows :: "catalog_row list" where
  "two_rows =
     [\<lparr>row_item_id = ''A'', row_title = ''Space Opera'', row_description = ''a galaxy far away'',
       row_text = ''space opera a galaxy far away''\<rparr>,
      \<lparr>row_item_id = ''B'', row_title = ''Romance'', row_description = ''a love story'',
       row_text = ''romance a love story''\<rparr>]"

definition overlap_scorer :: bm25okapi where
  "overlap_scorer corpus q = map (\<lambda>d. Fin (real (length (filter (\<lambda>t. t \<in> set d) q)))) corpus"

definition no_embeddings :: embedding_store where
  "no_embeddings = \<lparr>emb = None, id_map = [], nn = None\<rparr>"

text \<open>
  Three embedding artifacts: one for the items \<open>A, B, C\<close>; one whose mapping names \<open>A\<close> for
  both of its vectors; one whose mapping has an entry, \<open>5 \<mapsto> B\<close>, beyond its single vector.
\<close>

definition abc_emb_files :: emb_files where
  "abc_emb_files =
     \<lparr>item_vectors_npy = Content (matrix [[1], [2], [3]]),
      id_mapping_json = Content [(0, ''A''), (1, ''B''), (2, ''C'')]\<rparr>"

definition abc_store :: embedding_store where
  "abc_store =
     \<lparr>emb = Some (matrix [[1], [2], [3]]),
      id_map = [(0, ''A''), (1, ''B''), (2, ''C'')],
      nn = Some (matrix [[1], [2], [3]])\<rparr>"

definition dup_emb_files :: emb_files where
  "dup_emb_files =
     \<lparr>item_vectors_npy = Content (matrix [[1], [1]]),
      id_mapping_json = Content [(0, ''A''), (1, ''A'')]\<rparr>"

definition dup_store :: embedding_store where
  "dup_store =
     \<lparr>emb = Some (matrix [[1], [1]]),
      id_map = [(0, ''A''), (1, ''A'')],
      nn = Some (matrix [[1], [1]])\<rparr>"

definition short_emb_files :: emb_files where
  "short_emb_files =
     \<lparr>item_vectors_npy = Content (matrix [[1]]),
      id_mapping_json = Content [(0, ''A''), (5, ''B'')]\<rparr>"

definition short_store :: embedding_store where
  "short_store =
     \<lparr>emb = Some (matrix [[1]]),
      id_map = [(0, ''A''), (5, ''B'')],
      nn = Some (matrix [[1]])\<rparr>"

text \<open>
  Two interactions of one user, one second apart across the step from nine to ten digits of
  Unix time (9 September 2001); neither has a rating.
\<close>

definition unix_table :: ratings_table where
  "unix_table =
     \<lparr>has_rating = False, has_timestamp = True,
      table_rows =
        [\<lparr>r_user = ''u1'', r_item = ''A'', r_rating = None, r_timestamp = Some ''999999999''\<rparr>,
         \<lparr>r_user = ''u1'', r_item = ''B'', r_rating = None, r_timestamp = Some ''1000000000''\<rparr>]\<rparr>"

section \<open>Facts about dictionaries\<close>

lemma map_of_dict_set: "map_of (dict_set d k v) = (map_of d)(k \<mapsto> v)"
  by (induction d) (auto simp: fun_eq_iff)




lemma dict_set_fresh: "k \<notin> fst ` set d \<Longrightarrow> dict_set d k v = d @ [(k, v)]"
  by (induction d) auto

section \<open>The score blender\<close>













section \<open>The module-level entry point\<close>

lemma bound_method_call:
  "getattr_recommend_for_user np (Instance st) [PStr user_id] [(''k'', PInt k)]
     = recommend_for_user np st user_id k"
  by (simp add: getattr_recommend_for_user_def CFInference_recommend_for_user_def bind_args_def
      recommend_for_user_params_def dict_has_def)

text \<open>
  C10.  For every \<open>user_id\<close> and every \<open>k\<close> the module-level function \<open>recommend_for_user\<close>
  raises \<open>TypeError\<close>: \<open>CFRecommender\<close> is the class, so the call reaches the plain function
  with \<open>user_id\<close> bound to \<open>self\<close> and nothing bound to the parameter \<open>user_id\<close>.
\<close>

theorem module_recommend_for_user_raises:
  "module_recommend_for_user np user_id k = Inl TypeError"
  by (simp add: module_recommend_for_user_def CFRecommender_def getattr_recommend_for_user_def
      CFInference_recommend_for_user_def bind_args_def recommend_for_user_params_def dict_has_def)

section \<open>The artifact loader\<close>

lemma init_without_artifact:
  assumes "try_load_artifacts fs = None"
  shows "init fs df = init no_artifacts df"
proof -
  have "try_load_artifacts no_artifacts = None"
    by (simp add: try_load_artifacts_def no_artifacts_def)
  with assms show ?thesis by (simp add: init_def)
qed

lemma fallback_mode:
  assumes "\<not> has_artifacts st"
  shows "recommend_for_user np st user_id k
           = Inr (map (\<lambda>it. [(''item_id'', it)]) (py_take k (cooccurrence_recs st user_id k)))"
  using assms by (simp add: recommend_for_user_def)

text \<open>
  C3.  When the three artifact files exist and are read, but the matrix is not two-dimensional
  of shape (entries of the user map, entries of the item map), the loader returns nothing:
  the recommender is built exactly as with the files absent, \<open>has_artifacts\<close> is false, no
  artifact field is set, and every \<open>recommend_for_user\<close> call is computed on the
  co-occurrence and popularity path.
\<close>

theorem mismatched_artifact_rejected:
  assumes "scores_npy fs = Content sc"
    and "user_ids_json fs = Content user_ids"
    and "item_ids_json fs = Content item_ids"
    and "length (shape sc) \<noteq> 2
         \<or> shape sc \<noteq> [length (build_user_to_idx user_ids), length (build_idx_to_item item_ids)]"
  shows "try_load_artifacts fs = None
       \<and> init fs df = init no_artifacts df
       \<and> \<not> has_artifacts (init fs df)
       \<and> scores (init fs df) = None \<and> user_to_idx (init fs df) = None
       \<and> idx_to_item (init fs df) = None \<and> item_to_idx (init fs df) = None
       \<and> recommend_for_user np (init fs df) user_id k
           = Inr (map (\<lambda>it. [(''item_id'', it)])
                    (py_take k (cooccurrence_recs (init fs df) user_id k)))"
proof -
  have none: "try_load_artifacts fs = None"
    using assms by (auto simp: try_load_artifacts_def Let_def)
  have no: "\<not> has_artifacts (init fs df)"
    by (simp add: init_def none Let_def)
  show ?thesis
    using none init_without_artifact [OF none] fallback_mode [OF no]
    by (simp add: init_def Let_def)
qed

theorem mismatched_artifact_rejected_witness:
  "scores_npy mismatched_files = Content ones_3x2
   \<and> shape ones_3x2 \<noteq> [length (build_user_to_idx [''u1'', ''u2'', ''u3'']),
                          length (build_idx_to_item [''A'', ''B'', ''C''])]
   \<and> try_load_artifacts mismatched_files = None
   \<and> \<not> has_artifacts (init mismatched_files small_ratings)
   \<and> recommend_for_user numpy_stable (init mismatched_files small_ratings) ''u2'' 5
        = Inr (map (\<lambda>it. [(''item_id'', it)])
                 (py_take 5 (cooccurrence_recs (init mismatched_files small_ratings) ''u2'' 5)))"
proof -
  have h1: "scores_npy mismatched_files = Content ones_3x2"
    and h2: "user_ids_json mismatched_files = Content [''u1'', ''u2'', ''u3'']"
    and h3: "item_ids_json mismatched_files = Content [''A'', ''B'', ''C'']"
    by (simp_all add: mismatched_files_def)
  have ne: "shape ones_3x2 \<noteq> [length (build_user_to_idx [''u1'', ''u2'', ''u3'']),
                          length (build_idx_to_item [''A'', ''B'', ''C''])]"
    by (simp add: ones_3x2_def build_user_to_idx_def build_idx_to_item_def)
  then have h4: "length (shape ones_3x2) \<noteq> 2
      \<or> shape ones_3x2 \<noteq> [length (build_user_to_idx [''u1'', ''u2'', ''u3'']),
                          length (build_idx_to_item [''A'', ''B'', ''C''])]"
    by (rule disjI2)
  from mismatched_artifact_rejected [OF h1 h2 h3 h4, of small_ratings numpy_stable "''u2''" 5] h1 ne
  show ?thesis by blast
qed

section \<open>Popularity and the cold start\<close>

lemma py_take_pos: "0 < k \<Longrightarrow> py_take k xs = take (nat k) xs"
  by (simp add: py_take_def)

lemma map_py_take: "map f (py_take k xs) = py_take k (map f xs)"
  by (simp add: py_take_def take_map)

lemma map_insort_key:
  assumes "\<And>y. y \<in> set (x # xs) \<Longrightarrow> g (f y) = h y"
  shows "map f (insort_key h x xs) = insort_key g (f x) (map f xs)"
  using assms by (induction xs) auto

lemma map_sort_key:
  assumes "\<And>y. y \<in> set xs \<Longrightarrow> g (f y) = h y"
  shows "map f (sort_key h xs) = sort_key g (map f xs)"
  using assms
proof (induction xs)
  case Nil
  then show ?case by simp
next
  case (Cons x xs)
  then have "map f (insort_key h x (sort_key h xs)) = insort_key g (f x) (map f (sort_key h xs))"
    by (intro map_insort_key) auto
  with Cons show ?case by simp
qed

lemma popular_only_init:
  "popular_only (init fs df) k = py_take k (popularity_ranking df)"
proof -
  have "map fst (sort_key (\<lambda>(it, cnt). (- int cnt, it)) (value_counts df))
          = sort_key (\<lambda>it. (- int (popularity df it), it)) (map fst (value_counts df))"
    by (rule map_sort_key) (auto simp: value_counts_def popularity_def)
  moreover have "map fst (value_counts df) = remdups (map snd df)"
    by (simp add: value_counts_def comp_def)
  ultimately show ?thesis
    by (simp add: popular_only_def init_def Let_def popularity_ranking_def map_py_take)
qed


lemma foldl_dict_set_fresh:
  assumes "distinct (map fst d @ map kf xs)"
  shows "foldl (\<lambda>d x. dict_set d (kf x) (vf x)) d xs = d @ map (\<lambda>x. (kf x, vf x)) xs"
  using assms
proof (induction xs arbitrary: d)
  case Nil
  then show ?case by simp
next
  case (Cons x xs)
  from Cons.prems have fresh: "kf x \<notin> fst ` set d" by auto
  from Cons.prems have "distinct (map fst (d @ [(kf x, vf x)]) @ map kf xs)" by auto
  from Cons.IH [OF this] show ?case
    by (simp add: dict_set_fresh [OF fresh])
qed

lemma build_user_items_eq:
  "build_user_items df = map (\<lambda>uid. (uid, remdups (group_items df uid))) (group_keys df)"
  using foldl_dict_set_fresh [of "[]" "\<lambda>uid. uid" "group_keys df" "\<lambda>uid. remdups (group_items df uid)"]
  by (simp add: build_user_items_def group_keys_def)

lemma map_of_keyed: "map_of (map (\<lambda>k. (k, f k)) ks) x = (if x \<in> set ks then Some (f x) else None)"
  by (induction ks) auto

lemma group_items_absent: "uid \<notin> fst ` set df \<Longrightarrow> group_items df uid = []"
  by (force simp: group_items_def filter_empty_conv)

lemma set_group_items: "set (group_items df uid) = {it. (uid, it) \<in> set df}"
  by (auto simp: group_items_def image_iff)

lemma seen_init:
  "dict_get (user_items (init fs df)) uid [] = remdups (group_items df uid)"
proof (cases "uid \<in> fst ` set df")
  case True
  then show ?thesis
    by (simp add: init_def Let_def build_user_items_eq dict_get_def map_of_keyed group_keys_def)
next
  case False
  then show ?thesis
    by (simp add: init_def Let_def build_user_items_eq dict_get_def map_of_keyed group_keys_def
        group_items_absent)
qed



lemma init_loaded:
  assumes "try_load_artifacts fs = Some (sc, u2i, i2it)"
  shows "has_artifacts (init fs df)" "scores (init fs df) = Some sc"
    "user_to_idx (init fs df) = Some u2i" "idx_to_item (init fs df) = Some i2it"
    "item_to_idx (init fs df) = Some (foldl (\<lambda>d (k, v). dict_set d v k) [] i2it)"
  using assms by (simp_all add: init_def Let_def)


lemma recs_from_artifacts_unknown:
  assumes "try_load_artifacts fs = Some (sc, u2i, i2it)" "uid \<notin> fst ` set u2i"
  shows "recs_from_artifacts np (init fs df) uid k = Inr (popular_only (init fs df) k)"
proof -
  from assms(2) have "map_of u2i uid = None"
    by (simp add: map_of_eq_None_iff)
  then show ?thesis
    by (simp add: recs_from_artifacts_def init_loaded [OF assms(1)])
qed

lemma py_take_idem: "0 < k \<Longrightarrow> py_take k (py_take k xs) = py_take k xs"
  by (simp add: py_take_def)



section \<open>The numpy routines under their contract\<close>

lemma argsort_stable_ok: "argsort_ok argsort_stable"
  by (simp add: argsort_ok_def argsort_stable_def atLeast0LessThan)

lemma argpartition_by_sort_ok: "argpartition_ok (\<lambda>a kth. argsort_stable a)"
proof -
  have "np_key (a ! (argsort_stable a ! i)) \<le> np_key (a ! (argsort_stable a ! j))"
    if "i \<le> j" "j < length a" for a i j
  proof -
    have s: "sorted (map (\<lambda>i. np_key (a ! i)) (argsort_stable a))"
      and l: "length (argsort_stable a) = length a"
      by (simp_all add: argsort_stable_def)
    from sorted_nth_mono [OF s, of i j] that l show ?thesis by simp
  qed
  then show ?thesis
    by (simp add: argpartition_ok_def) (simp add: argsort_stable_def atLeast0LessThan)
qed

lemma numpy_stable_ok: "numpy_ok numpy_stable"
  by (simp add: numpy_ok_def numpy_stable_def argsort_stable_ok argpartition_by_sort_ok)

lemma perm_length:
  assumes "distinct p" "set p = {..<n}"
  shows "length p = n"
  using assms distinct_card [of p] by simp

lemma top_k_too_large:
  assumes "0 < k" "length row < nat k"
  shows "top_k np row k = Inl ValueError"
proof -
  from assms have "- k + int (length row) < 0" by linarith
  with assms(1) show ?thesis
    by (simp add: top_k_def np_argpartition_def Let_def)
qed

lemma top_k_ok:
  assumes np: "numpy_ok np" and k: "0 < k" "nat k \<le> length row"
  shows "\<exists>js. top_k np row k = Inr js \<and> length js = nat k \<and> distinct js
           \<and> set js \<subseteq> {..<length row}
           \<and> (\<forall>j<length row. j \<notin> set js \<longrightarrow>
                 (\<forall>i \<in> set js. np_key (row ! j) \<le> np_key (row ! i)))
           \<and> sorted (rev (map (\<lambda>j. np_key (row ! j)) js))"
proof -
  define n where "n = length row"
  define kth where "kth = n - nat k"
  define p where "p = argpartition np row kth"
  define topk where "topk = drop kth p"
  define vals where "vals = map (\<lambda>i. row ! i) topk"
  define q where "q = argsort np vals"
  define js where "js = map (\<lambda>i. topk ! i) (rev q)"
  from k have kth_lt: "kth < n" by (simp add: kth_def n_def)
  from np have part: "argpartition_ok (argpartition np)" and srt: "argsort_ok (argsort np)"
    by (simp_all add: numpy_ok_def)
  from part kth_lt have p_dist: "distinct p" and p_set: "set p = {..<n}"
    and p_lo: "\<And>i. i < kth \<Longrightarrow> np_key (row ! (p ! i)) \<le> np_key (row ! (p ! kth))"
    and p_hi: "\<And>i. i < n \<Longrightarrow> kth < i \<Longrightarrow> np_key (row ! (p ! kth)) \<le> np_key (row ! (p ! i))"
    unfolding argpartition_ok_def p_def n_def by blast+
  have p_len: "length p = n" using perm_length [OF p_dist p_set] .
  have topk_len: "length topk = nat k" using k by (simp add: topk_def p_len kth_def n_def)
  have topk_dist: "distinct topk" using p_dist by (simp add: topk_def)
  have topk_sub: "set topk \<subseteq> {..<n}" using p_set set_drop_subset [of kth p] by (auto simp: topk_def)
  have kth_int: "- k + int (length row) = int kth"
    using k by (simp add: kth_def n_def)
  have argp: "np_argpartition np row (- k) = Inr p"
    using k(1) kth_lt unfolding np_argpartition_def Let_def kth_int p_def n_def by simp
  have last: "py_last k p = topk"
    using k by (simp add: py_last_def topk_def p_len kth_def n_def)
  have take1: "np_take row topk = Inr vals"
    using topk_sub by (auto simp: np_take_def vals_def n_def)
  have vals_len: "length vals = nat k" by (simp add: vals_def topk_len)
  from srt have q_dist: "distinct q" and q_set: "set q = {..<nat k}"
    and q_sorted: "sorted (map (\<lambda>i. np_key (vals ! i)) q)"
    unfolding argsort_ok_def q_def using vals_len by auto
  have take2: "np_take topk (rev q) = Inr js"
    using q_set by (auto simp: np_take_def js_def topk_len)
  have res: "top_k np row k = Inr js"
    by (simp add: top_k_def argp last take1 take2 [unfolded q_def] Let_def)
  have js_len: "length js = nat k"
    using perm_length [OF q_dist q_set] by (simp add: js_def)
  have inj: "inj_on (\<lambda>i. topk ! i) (set (rev q))"
    using topk_dist q_set by (auto simp: inj_on_def topk_len nth_eq_iff_index_eq)
  have js_dist: "distinct js"
    using q_dist inj by (simp add: js_def distinct_map)
  have js_set: "set js = set topk"
  proof -
    have "set js = (\<lambda>i. topk ! i) ` {..<length topk}"
      by (simp add: js_def q_set topk_len)
    also have "\<dots> = set topk"
      by (auto simp: set_conv_nth)
    finally show ?thesis .
  qed
  have js_sorted: "sorted (rev (map (\<lambda>j. np_key (row ! j)) js))"
  proof -
    have "map (\<lambda>j. np_key (row ! j)) js = rev (map (\<lambda>i. np_key (vals ! i)) q)"
      using q_set by (auto simp: js_def vals_def rev_map topk_len)
    with q_sorted show ?thesis by simp
  qed
  have dom: "np_key (row ! j) \<le> np_key (row ! i)" if "j < n" "j \<notin> set js" "i \<in> set js" for i j
  proof -
    from that(1) p_set obtain a where a: "a < n" "p ! a = j"
      by (metis in_set_conv_nth lessThan_iff p_len)
    have "a < kth"
    proof (rule ccontr)
      assume "\<not> a < kth"
      then have "j \<in> set (drop kth p)"
        using a p_len by (auto simp: in_set_conv_nth intro!: exI [of _ "a - kth"])
      with that(2) show False by (simp add: js_set topk_def)
    qed
    from that(3) obtain b where b: "b < nat k" "topk ! b = i"
      by (metis in_set_conv_nth js_set topk_len)
    then have i: "i = p ! (kth + b)" and bn: "kth + b < n"
      using kth_lt k by (auto simp: topk_def p_len kth_def n_def)
    have "np_key (row ! (p ! kth)) \<le> np_key (row ! (p ! (kth + b)))"
      using p_hi [of "kth + b"] bn by (cases b) auto
    with p_lo [OF \<open>a < kth\<close>] a i show ?thesis by simp
  qed
  show ?thesis
    using res js_len js_dist js_set topk_sub js_sorted dom
    unfolding n_def by (intro exI [of _ js]) auto
qed

section \<open>The artifact path\<close>

lemma build_idx_to_item_eq: "build_idx_to_item item_ids = enumerate 0 item_ids"
proof -
  have "distinct (map fst (enumerate 0 item_ids))" by simp
  then have "foldl (\<lambda>d x. dict_set d (fst x) (snd x)) [] (enumerate 0 item_ids)
               = [] @ map (\<lambda>x. (fst x, snd x)) (enumerate 0 item_ids)"
    by (intro foldl_dict_set_fresh) simp
  then show ?thesis by (simp add: build_idx_to_item_def split_def)
qed

lemma map_of_enumerate:
  "map_of (enumerate 0 xs) j = (if j < length xs then Some (xs ! j) else None)"
proof (cases "j < length xs")
  case True
  have "distinct (map fst (enumerate 0 xs))" by simp
  moreover from True have "(j, xs ! j) \<in> set (enumerate 0 xs)"
    by (simp add: in_set_enumerate_eq)
  ultimately show ?thesis using True by simp
next
  case False
  then have "j \<notin> fst ` set (enumerate 0 xs)"
    by (auto simp: in_set_enumerate_eq)
  then show ?thesis using False by (simp add: map_of_eq_None_iff)
qed

lemma inverted_enumerate:
  assumes "distinct xs"
  shows "foldl (\<lambda>d (k, v). dict_set d v k) [] (enumerate 0 xs) = map (\<lambda>(k, v). (v, k)) (enumerate 0 xs)"
proof -
  from assms have "distinct (map fst ([] :: ('a \<times> nat) list) @ map snd (enumerate 0 xs))" by simp
  from foldl_dict_set_fresh [OF this, of fst] show ?thesis
    by (simp add: split_def)
qed

lemma map_of_inverted:
  assumes "distinct xs"
  shows "map_of (map (\<lambda>(k, v). (v, k)) (enumerate 0 xs)) x = Some j \<longleftrightarrow> j < length xs \<and> xs ! j = x"
proof -
  have "distinct (map fst (map (\<lambda>(k, v). (v, k)) (enumerate 0 xs)))"
    using assms by (simp add: comp_def split_def)
  then have "map_of (map (\<lambda>(k, v). (v, k)) (enumerate 0 xs)) x = Some j
               \<longleftrightarrow> (x, j) \<in> set (map (\<lambda>(k, v). (v, k)) (enumerate 0 xs))"
    by simp
  also have "\<dots> \<longleftrightarrow> (j, x) \<in> set (enumerate 0 xs)" by auto
  also have "\<dots> \<longleftrightarrow> j < length xs \<and> xs ! j = x" by (auto simp: in_set_enumerate_eq)
  finally show ?thesis .
qed

lemma build_user_to_idx_distinct:
  assumes "distinct user_ids"
  shows "build_user_to_idx user_ids = map (\<lambda>(k, v). (v, k)) (enumerate 0 user_ids)"
  using inverted_enumerate [OF assms] by (simp add: build_user_to_idx_def)

lemma mask_seen_eq:
  assumes "distinct item_ids" "length r = length item_ids"
  shows "mask_seen (map (\<lambda>(k, v). (v, k)) (enumerate 0 item_ids)) r seen
           = Inr (map (\<lambda>j. if item_ids ! j \<in> set seen then NegInf else r ! j) [0..<length item_ids])"
  using assms(2)
proof (induction seen arbitrary: r)
  case Nil
  from map_nth [of r] Nil show ?case by simp
next
  case (Cons it seen)
  let ?m = "map (\<lambda>(k, v). (v, k)) (enumerate 0 item_ids)"
  show ?case
  proof (cases "map_of ?m it")
    case None
    then have "\<And>j. j < length item_ids \<Longrightarrow> item_ids ! j \<noteq> it"
      using map_of_inverted [OF assms(1), of it] by auto
    with None Cons show ?thesis by simp
  next
    case (Some j)
    then have j: "j < length item_ids" "item_ids ! j = it"
      using map_of_inverted [OF assms(1), of it j] by auto
    have uniq: "\<And>j'. j' < length item_ids \<Longrightarrow> item_ids ! j' = it \<longleftrightarrow> j' = j"
      using j assms(1) by (auto simp: nth_eq_iff_index_eq)
    have len: "length (r[j := NegInf]) = length item_ids" using Cons.prems by simp
    have "map (\<lambda>j'. if item_ids ! j' \<in> set seen then NegInf else r[j := NegInf] ! j') [0..<length item_ids]
            = map (\<lambda>j'. if item_ids ! j' \<in> set (it # seen) then NegInf else r ! j') [0..<length item_ids]"
      using uniq j Cons.prems by (auto simp: nth_list_update)
    with Cons.IH [OF len] Some j Cons.prems show ?thesis by simp
  qed
qed

lemma finite_items_eq:
  assumes "\<forall>j \<in> set js. j < length item_ids" "length row = length item_ids"
  shows "finite_items (enumerate 0 item_ids) row js
           = Inr (map (\<lambda>j. item_ids ! j) (filter (\<lambda>j. isfinite (row ! j)) js))"
  using assms by (induction js) (simp_all add: map_of_enumerate)

lemma score_row_eq:
  assumes "shape sc = [n_users, n_items]" "uidx < n_users"
  shows "score_row sc uidx = Inr (map (\<lambda>j. entry sc [uidx, j]) [0..<n_items])"
  using assms by (simp add: score_row_def)



lemma valid_artifact_loaded:
  assumes "valid_artifact fs sc user_ids item_ids"
  shows "try_load_artifacts fs
           = Some (sc, map (\<lambda>(k, v). (v, k)) (enumerate 0 user_ids), enumerate 0 item_ids)"
  using assms
  by (simp add: valid_artifact_def try_load_artifacts_def Let_def build_idx_to_item_eq
      build_user_to_idx_distinct)

lemma seen_set: "set (dict_get (user_items (init fs df)) uid []) = {it. (uid, it) \<in> set df}"
  by (simp add: seen_init set_group_items)

lemma recs_from_artifacts_known:
  assumes v: "valid_artifact fs sc user_ids item_ids" and u: "uidx < length user_ids"
  shows "recs_from_artifacts np (init fs df) (user_ids ! uidx) k
           = (case top_k np (masked_row sc item_ids df uidx (user_ids ! uidx)) k of
                Inl e \<Rightarrow> Inl e
              | Inr js \<Rightarrow>
                  finite_items (enumerate 0 item_ids)
                    (masked_row sc item_ids df uidx (user_ids ! uidx)) js)"
proof -
  note l = init_loaded [OF valid_artifact_loaded [OF v], of df]
  from v have d: "distinct user_ids" "distinct item_ids"
    and sh: "shape sc = [length user_ids, length item_ids]"
    by (simp_all add: valid_artifact_def)
  have look: "map_of (map (\<lambda>(k, v). (v, k)) (enumerate 0 user_ids)) (user_ids ! uidx) = Some uidx"
    using map_of_inverted [OF d(1), of "user_ids ! uidx" uidx] u by simp
  have row0: "score_row sc uidx = Inr (map (\<lambda>j. entry sc [uidx, j]) [0..<length item_ids])"
    by (rule score_row_eq [OF sh u])
  have mask: "mask_seen (foldl (\<lambda>d (k, v). dict_set d v k) [] (enumerate 0 item_ids))
                (map (\<lambda>j. entry sc [uidx, j]) [0..<length item_ids])
                (dict_get (user_items (init fs df)) (user_ids ! uidx) [])
              = Inr (masked_row sc item_ids df uidx (user_ids ! uidx))"
    unfolding inverted_enumerate [OF d(2)]
    by (subst mask_seen_eq [OF d(2)]) (simp_all add: masked_row_def seen_set)
  show ?thesis
    by (simp add: recs_from_artifacts_def l look row0 mask)
qed

lemma masked_row_length: "length (masked_row sc item_ids df uidx uid) = length item_ids"
  by (simp add: masked_row_def)

lemma py_take_short: "0 < k \<Longrightarrow> length xs \<le> nat k \<Longrightarrow> py_take k xs = xs"
  by (simp add: py_take_def)

lemma keys_inverted: "fst ` set (map (\<lambda>(k, v). (v, k)) (enumerate 0 xs)) = set xs"
proof -
  have "fst ` set (map (\<lambda>(k, v). (v, k)) (enumerate 0 xs)) = snd ` set (enumerate 0 xs)"
    by (simp add: image_image split_def)
  also have "\<dots> = set xs"
    using set_map [of snd "enumerate 0 xs"] by simp
  finally show ?thesis .
qed

text \<open>
  With more items asked for than the matrix has columns, \<open>argpartition\<close> raises and the
  call is computed on the fallback path.
\<close>

lemma artifact_path_too_many:
  assumes v: "valid_artifact fs sc user_ids item_ids" and k: "0 < k"
    and a: "uidx < length user_ids" "length item_ids < nat k"
  shows "recommend_for_user np (init fs df) (user_ids ! uidx) k
           = Inr (map (\<lambda>it. [(''item_id'', it)])
                   (py_take k (cooccurrence_recs (init fs df) (user_ids ! uidx) k)))"
proof -
  note l = init_loaded [OF valid_artifact_loaded [OF v], of df]
  from a(2) have "length (masked_row sc item_ids df uidx (user_ids ! uidx)) < nat k"
    by (simp add: masked_row_length)
  from top_k_too_large [OF k this, of np] a(1) show ?thesis
    by (simp add: recommend_for_user_def l(1) recs_from_artifacts_known [OF v])
qed

text \<open>
  C1 (as amended).  With a valid artifact, a numpy that meets its contract and a positive \<open>k\<close>:
  for a user of the artifact's user map and \<open>k\<close> not above the number of item columns,
  \<open>recommend_for_user\<close> takes the user's score row with the column of every seen item at
  \<open>-inf\<close>, picks \<open>k\<close> different columns such that no other column scores higher than a picked
  one, orders them by non-increasing score, and returns the ids of those with a finite score
  (the order among equal scores is whatever numpy's two routines yield); for a user absent
  from the artifact's user map the result is the popularity top-\<open>k\<close>.
\<close>

theorem artifact_recommendation:
  assumes np: "numpy_ok np" and v: "valid_artifact fs sc user_ids item_ids" and k: "0 < k"
  shows "(uidx < length user_ids \<and> nat k \<le> length item_ids \<longrightarrow>
           (\<exists>js. length js = nat k \<and> distinct js \<and> set js \<subseteq> {..<length item_ids}
              \<and> (\<forall>j<length item_ids. j \<notin> set js \<longrightarrow>
                    (\<forall>i \<in> set js. np_key (masked_row sc item_ids df uidx (user_ids ! uidx) ! j)
                                     \<le> np_key (masked_row sc item_ids df uidx (user_ids ! uidx) ! i)))
              \<and> sorted (rev (map (\<lambda>j. np_key (masked_row sc item_ids df uidx (user_ids ! uidx) ! j)) js))
              \<and> recommend_for_user np (init fs df) (user_ids ! uidx) k
                  = Inr (map (\<lambda>it. [(''item_id'', it)])
                          (map (\<lambda>j. item_ids ! j)
                            (filter (\<lambda>j. isfinite (masked_row sc item_ids df uidx (user_ids ! uidx) ! j)) js)))))
       \<and> (user_id \<notin> set user_ids \<longrightarrow>
            recommend_for_user np (init fs df) user_id k
              = Inr (map (\<lambda>it. [(''item_id'', it)]) (take (nat k) (popularity_ranking df))))"
proof (intro conjI impI)
  note l = init_loaded [OF valid_artifact_loaded [OF v], of df]
  let ?row = "masked_row sc item_ids df uidx (user_ids ! uidx)"
  {
    assume a: "uidx < length user_ids \<and> nat k \<le> length item_ids"
    then have "nat k \<le> length ?row" by (simp add: masked_row_length)
    from top_k_ok [OF np k this] obtain js where js: "top_k np ?row k = Inr js"
      "length js = nat k" "distinct js" "set js \<subseteq> {..<length item_ids}"
      "\<forall>j<length item_ids. j \<notin> set js \<longrightarrow> (\<forall>i \<in> set js. np_key (?row ! j) \<le> np_key (?row ! i))"
      "sorted (rev (map (\<lambda>j. np_key (?row ! j)) js))"
      unfolding masked_row_length by blast
    from js(4) have lt: "\<forall>j \<in> set js. j < length item_ids" by auto
    have recs: "recs_from_artifacts np (init fs df) (user_ids ! uidx) k
                  = Inr (map (\<lambda>j. item_ids ! j) (filter (\<lambda>j. isfinite (?row ! j)) js))"
      using a by (simp add: recs_from_artifacts_known [OF v] js(1)
          finite_items_eq [OF lt masked_row_length])
    have "length (map (\<lambda>j. item_ids ! j) (filter (\<lambda>j. isfinite (?row ! j)) js)) \<le> nat k"
      using length_filter_le [of "\<lambda>j. isfinite (?row ! j)" js] js(2) by simp
    then have "recommend_for_user np (init fs df) (user_ids ! uidx) k
                 = Inr (map (\<lambda>it. [(''item_id'', it)])
                          (map (\<lambda>j. item_ids ! j) (filter (\<lambda>j. isfinite (?row ! j)) js)))"
      by (simp add: recommend_for_user_def l(1) recs py_take_short [OF k])
    with js show "\<exists>js. length js = nat k \<and> distinct js \<and> set js \<subseteq> {..<length item_ids}
              \<and> (\<forall>j<length item_ids. j \<notin> set js \<longrightarrow>
                    (\<forall>i \<in> set js. np_key (?row ! j) \<le> np_key (?row ! i)))
              \<and> sorted (rev (map (\<lambda>j. np_key (?row ! j)) js))
              \<and> recommend_for_user np (init fs df) (user_ids ! uidx) k
                  = Inr (map (\<lambda>it. [(''item_id'', it)])
                          (map (\<lambda>j. item_ids ! j) (filter (\<lambda>j. isfinite (?row ! j)) js)))"
      by blast
  }
  {
    assume "user_id \<notin> set user_ids"
    then have "user_id \<notin> fst ` set (map (\<lambda>(k, v). (v, k)) (enumerate 0 user_ids))"
      unfolding keys_inverted .
    from recs_from_artifacts_unknown [OF valid_artifact_loaded [OF v] this, of np df k]
    show "recommend_for_user np (init fs df) user_id k
              = Inr (map (\<lambda>it. [(''item_id'', it)]) (take (nat k) (popularity_ranking df)))"
      using k by (simp add: recommend_for_user_def l(1) popular_only_init py_take_idem py_take_pos)
  }
qed

theorem artifact_recommendation_witness:
  "numpy_ok numpy_stable
   \<and> valid_artifact demo_files demo_scores [''u1'', ''u2''] [''A'', ''B'', ''C'']
   \<and> (\<exists>js. length js = nat 2 \<and> distinct js
         \<and> recommend_for_user numpy_stable (init demo_files small_ratings) ([''u1'', ''u2''] ! 0) 2
             = Inr (map (\<lambda>it. [(''item_id'', it)])
                     (map (\<lambda>j. [''A'', ''B'', ''C''] ! j)
                       (filter (\<lambda>j. isfinite (masked_row demo_scores [''A'', ''B'', ''C''] small_ratings 0
                                                ([''u1'', ''u2''] ! 0) ! j)) js))))
   \<and> recommend_for_user numpy_stable (init demo_files small_ratings) ''u1'' 2
        = Inr [[(''item_id'', ''C'')]]
   \<and> ''u9'' \<notin> set [''u1'', ''u2'']
   \<and> recommend_for_user numpy_stable (init demo_files small_ratings) ''u9'' 2
        = Inr (map (\<lambda>it. [(''item_id'', it)]) (take (nat 2) (popularity_ranking small_ratings)))"
proof -
  have h1: "numpy_ok numpy_stable" by (rule numpy_stable_ok)
  have h2: "valid_artifact demo_files demo_scores [''u1'', ''u2''] [''A'', ''B'', ''C'']"
    by (simp add: valid_artifact_def demo_files_def demo_scores_def matrix_def)
  have k2: "(0::int) < 2" by simp
  have p1: "(0::nat) < length [''u1'', ''u2''] \<and> nat 2 \<le> length [''A'', ''B'', ''C'']" by simp
  have p3: "''u9'' \<notin> set [''u1'', ''u2'']" by simp
  note t2 = artifact_recommendation [OF h1 h2 k2, of 0 small_ratings "''u9''"]
  from t2 [THEN conjunct1, rule_format, OF p1]
  have a: "\<exists>js. length js = nat 2 \<and> distinct js
         \<and> recommend_for_user numpy_stable (init demo_files small_ratings) ([''u1'', ''u2''] ! 0) 2
             = Inr (map (\<lambda>it. [(''item_id'', it)])
                     (map (\<lambda>j. [''A'', ''B'', ''C''] ! j)
                       (filter (\<lambda>j. isfinite (masked_row demo_scores [''A'', ''B'', ''C''] small_ratings 0
                                                ([''u1'', ''u2''] ! 0) ! j)) js)))"
    by blast
  have b: "recommend_for_user numpy_stable (init demo_files small_ratings) ''u1'' 2
        = Inr [[(''item_id'', ''C'')]]"
    by code_simp
  note d = t2 [THEN conjunct2, rule_format, OF p3]
  from h1 h2 a b p3 d show ?thesis by blast
qed

text \<open>
  The claim as worded fails twice on the artifact of the example, for user \<open>u2\<close>, who has seen
  \<open>A\<close> and whose row scores \<open>B\<close> and \<open>C\<close> equally.  With \<open>k = 5\<close> above the three columns,
  \<open>argpartition\<close> raises and the fallback path answers \<open>[B]\<close>, not the finite-score items
  \<open>[B, C]\<close>.  With \<open>k = 2\<close>, the ascending \<open>argsort\<close> read backwards puts the equal scores in
  the order \<open>[C, B]\<close>, not in column order.  And where the item list of the artifact names \<open>A\<close>
  for two columns, only the last of them is masked: \<open>u1\<close>, who has seen \<open>A\<close>, is recommended \<open>A\<close>.
\<close>

theorem artifact_recommendation_counterexample:
  "recommend_for_user numpy_stable (init demo_files small_ratings) ''u2'' 5
     = Inr [[(''item_id'', ''B'')]]
   \<and> map (\<lambda>j. [''A'', ''B'', ''C''] ! j)
        (claimed_top_k (masked_row demo_scores [''A'', ''B'', ''C''] small_ratings 1 ''u2'') 5)
     = [''B'', ''C'']
   \<and> recommend_for_user numpy_stable (init demo_files small_ratings) ''u2'' 2
     = Inr [[(''item_id'', ''C'')], [(''item_id'', ''B'')]]
   \<and> map (\<lambda>j. [''A'', ''B'', ''C''] ! j)
        (claimed_top_k (masked_row demo_scores [''A'', ''B'', ''C''] small_ratings 1 ''u2'') 2)
     = [''B'', ''C'']
   \<and> (''u1'', ''A'') \<in> set small_ratings
   \<and> recommend_for_user numpy_stable (init dup_files small_ratings) ''u1'' 1
     = Inr [[(''item_id'', ''A'')]]"
proof (intro conjI)
  show "recommend_for_user numpy_stable (init demo_files small_ratings) ''u2'' 5
     = Inr [[(''item_id'', ''B'')]]"
    by code_simp
  show "map (\<lambda>j. [''A'', ''B'', ''C''] ! j)
        (claimed_top_k (masked_row demo_scores [''A'', ''B'', ''C''] small_ratings 1 ''u2'') 5)
     = [''B'', ''C'']"
    by code_simp
  show "recommend_for_user numpy_stable (init demo_files small_ratings) ''u2'' 2
     = Inr [[(''item_id'', ''C'')], [(''item_id'', ''B'')]]"
    by code_simp
  show "map (\<lambda>j. [''A'', ''B'', ''C''] ! j)
        (claimed_top_k (masked_row demo_scores [''A'', ''B'', ''C''] small_ratings 1 ''u2'') 2)
     = [''B'', ''C'']"
    by code_simp
  show "(''u1'', ''A'') \<in> set small_ratings"
    by (simp add: small_ratings_def)
  show "recommend_for_user numpy_stable (init dup_files small_ratings) ''u1'' 1
     = Inr [[(''item_id'', ''A'')]]"
    by code_simp
qed

section \<open>Length and repetitions of a recommendation\<close>












section \<open>The co-occurrence table\<close>










section \<open>The fallback scores\<close>























section \<open>Lexical search\<close>

lemma hybrid_init_fields:
  assumes "rows \<noteq> []"
  shows "bm25 (hybrid_init b rows es) = Some (b (map (\<lambda>r. tokenize (row_text r)) rows))"
    and "items_df (items (hybrid_init b rows es)) = rows"
  using assms by (simp_all add: hybrid_init_def Let_def items_repo_init_def)

lemma top_of_argsort:
  fixes m :: nat
  assumes ok: "argsort_ok f" and n: "length vals = n"
  defines "idxs \<equiv> take m (rev (f vals))"
  shows "distinct idxs" "set idxs \<subseteq> {..<n}" "length idxs = min m n"
    "sorted (rev (map (\<lambda>i. np_key (vals ! i)) idxs))"
    "\<forall>j<n. j \<notin> set idxs \<longrightarrow> (\<forall>i \<in> set idxs. np_key (vals ! j) \<le> np_key (vals ! i))"
proof -
  define q where "q = f vals"
  from ok have qd: "distinct q" and qs: "set q = {..<n}"
    and srt: "sorted (map (\<lambda>i. np_key (vals ! i)) q)"
    unfolding argsort_ok_def q_def n [symmetric] by blast+
  have ql: "length q = n" by (rule perm_length [OF qd qs])
  have idxs: "idxs = rev (drop (n - m) q)"
    by (simp add: idxs_def q_def [symmetric] take_rev ql)
  show "distinct idxs" using qd by (simp add: idxs)
  show "set idxs \<subseteq> {..<n}" using qs set_drop_subset [of "n - m" q] by (auto simp: idxs)
  show "length idxs = min m n" by (simp add: idxs ql)
  have split: "map (\<lambda>i. np_key (vals ! i)) q
      = map (\<lambda>i. np_key (vals ! i)) (take (n - m) q) @ map (\<lambda>i. np_key (vals ! i)) (drop (n - m) q)"
    by (simp add: map_append [symmetric] del: map_append)
  from srt show "sorted (rev (map (\<lambda>i. np_key (vals ! i)) idxs))"
    unfolding split by (simp add: idxs rev_map sorted_append)
  show "\<forall>j<n. j \<notin> set idxs \<longrightarrow> (\<forall>i \<in> set idxs. np_key (vals ! j) \<le> np_key (vals ! i))"
  proof (intro allI impI ballI)
    fix j i
    assume "j < n" "j \<notin> set idxs" "i \<in> set idxs"
    then have "j \<in> set q" "j \<notin> set (drop (n - m) q)" "i \<in> set (drop (n - m) q)"
      using qs by (simp_all add: idxs)
    then have "j \<in> set (take (n - m) q)"
      using append_take_drop_id [of "n - m" q] set_append [of "take (n - m) q" "drop (n - m) q"]
      by auto
    with srt \<open>i \<in> set (drop (n - m) q)\<close> show "np_key (vals ! j) \<le> np_key (vals ! i)"
      unfolding split by (auto simp: sorted_append)
  qed
qed

text \<open>
  C6 (as amended).  With an \<open>argsort\<close> that meets its contract, a scorer that returns one score
  per document, a non-empty catalogue, a query with at least one token and a positive \<open>k\<close>,
  \<open>search\<close> returns the rows of \<open>min k n\<close> different documents (\<open>n\<close> the size of the corpus),
  hence at most \<open>k\<close>, each with its score, in non-increasing score order, and no document left
  out scores higher than a returned one.  The order among equal scores is that of the
  ascending \<open>argsort\<close> read backwards, which is not corpus order.
\<close>

theorem search_ranked:
  assumes "argsort_ok (argsort np)" and "bm25_ok b"
    and "rows \<noteq> []" and "tokenize query \<noteq> []" and "0 < k"
  shows "\<exists>res idxs. search np (hybrid_init b rows es) query k = Inr res
           \<and> length res \<le> nat k
           \<and> length res = min (nat k) (length rows)
           \<and> distinct idxs \<and> set idxs \<subseteq> {..<length rows}
           \<and> map res_item_id res = map (\<lambda>i. row_item_id (rows ! i)) idxs
           \<and> map res_score res
               = map (\<lambda>i. Some (b (map (\<lambda>r. tokenize (row_text r)) rows) (tokenize query) ! i)) idxs
           \<and> sorted (rev (map (\<lambda>i. np_key (b (map (\<lambda>r. tokenize (row_text r)) rows)
                                              (tokenize query) ! i)) idxs))
           \<and> (\<forall>j<length rows. j \<notin> set idxs \<longrightarrow>
                 (\<forall>i \<in> set idxs.
                    np_key (b (map (\<lambda>r. tokenize (row_text r)) rows) (tokenize query) ! j)
                    \<le> np_key (b (map (\<lambda>r. tokenize (row_text r)) rows) (tokenize query) ! i)))"
proof -
  define vals where "vals = b (map (\<lambda>r. tokenize (row_text r)) rows) (tokenize query)"
  define idxs where "idxs = take (nat k) (rev (argsort np vals))"
  define res where "res = map (\<lambda>i. let row = rows ! i
                                    in \<lparr>res_item_id = row_item_id row, res_title = row_title row,
                                        res_description = row_description row,
                                        res_score = Some (vals ! i)\<rparr>) idxs"
  from assms(2) have n: "length vals = length rows"
    by (simp add: vals_def bm25_ok_def)
  note top = top_of_argsort [OF assms(1) n, of "nat k", folded idxs_def]
  from top(2) have inb: "\<forall>i \<in> set idxs. i < length rows \<and> i < length vals"
    using n by auto
  from n assms(3) have ne: "vals \<noteq> []" by auto
  have "search np (hybrid_init b rows es) query k = Inr res"
    using assms(3,4,5) n inb ne
    by (simp add: search_def hybrid_init_fields [OF assms(3)] Let_def vals_def [symmetric]
        py_take_pos idxs_def [symmetric] res_def)
  moreover have "length res = min (nat k) (length rows)"
    by (simp add: res_def top(3))
  moreover have "map res_item_id res = map (\<lambda>i. row_item_id (rows ! i)) idxs"
    by (simp add: res_def Let_def comp_def)
  moreover have "map res_score res = map (\<lambda>i. Some (vals ! i)) idxs"
    by (simp add: res_def Let_def comp_def)
  ultimately show ?thesis
    using top(1,2,4,5) unfolding vals_def [symmetric]
    by (intro exI [of _ res] exI [of _ idxs]) simp
qed

theorem search_ranked_witness:
  "argsort_ok (argsort numpy_stable) \<and> bm25_ok overlap_scorer
   \<and> two_rows \<noteq> [] \<and> tokenize ''Galaxy!'' \<noteq> []
   \<and> (\<exists>res idxs. search numpy_stable (hybrid_init overlap_scorer two_rows no_embeddings) ''Galaxy!'' 5
                     = Inr res
         \<and> length res \<le> nat 5 \<and> distinct idxs
         \<and> map res_item_id res = map (\<lambda>i. row_item_id (two_rows ! i)) idxs)
   \<and> search numpy_stable (hybrid_init overlap_scorer two_rows no_embeddings) ''Galaxy!'' 5
       = Inr [\<lparr>res_item_id = ''A'', res_title = ''Space Opera'',
               res_description = ''a galaxy far away'', res_score = Some (Fin 1)\<rparr>,
              \<lparr>res_item_id = ''B'', res_title = ''Romance'',
               res_description = ''a love story'', res_score = Some (Fin 0)\<rparr>]"
proof -
  have h1: "argsort_ok (argsort numpy_stable)"
    using numpy_stable_ok by (simp add: numpy_ok_def)
  have h2: "bm25_ok overlap_scorer"
    by (simp add: bm25_ok_def overlap_scorer_def)
  have h3: "two_rows \<noteq> []" by (simp add: two_rows_def)
  have h4: "tokenize ''Galaxy!'' \<noteq> []" by code_simp
  have h5: "(0::int) < 5" by simp
  from search_ranked [OF h1 h2 h3 h4 h5, of no_embeddings]
  have e: "\<exists>res idxs. search numpy_stable (hybrid_init overlap_scorer two_rows no_embeddings) ''Galaxy!'' 5
                     = Inr res
         \<and> length res \<le> nat 5 \<and> distinct idxs
         \<and> map res_item_id res = map (\<lambda>i. row_item_id (two_rows ! i)) idxs"
    by blast
  have v: "search numpy_stable (hybrid_init overlap_scorer two_rows no_embeddings) ''Galaxy!'' 5
       = Inr [\<lparr>res_item_id = ''A'', res_title = ''Space Opera'',
               res_description = ''a galaxy far away'', res_score = Some (Fin 1)\<rparr>,
              \<lparr>res_item_id = ''B'', res_title = ''Romance'',
               res_description = ''a love story'', res_score = Some (Fin 0)\<rparr>]"
    by code_simp
  from h1 h2 h3 h4 e v show ?thesis by blast
qed

text \<open>
  The claim's tie rule fails where no document holds the query token: both documents score
  0, and the code lists \<open>B\<close>, the second row of the catalogue, before \<open>A\<close>.
\<close>

theorem search_ranked_counterexample:
  "search numpy_stable (hybrid_init overlap_scorer two_rows no_embeddings) ''zebra'' 5
     = Inr [\<lparr>res_item_id = ''B'', res_title = ''Romance'',
             res_description = ''a love story'', res_score = Some (Fin 0)\<rparr>,
            \<lparr>res_item_id = ''A'', res_title = ''Space Opera'',
             res_description = ''a galaxy far away'', res_score = Some (Fin 0)\<rparr>]"
  by code_simp

section \<open>Item-to-item similarity\<close>

lemma inverted_dict:
  fixes d :: "('k \<times> 'v) list"
  assumes "distinct (map snd d)"
  shows "foldl (\<lambda>r (k, v). dict_set r v k) [] d = map (\<lambda>(k, v). (v, k)) d"
proof -
  from assms have "distinct (map fst ([] :: ('v \<times> 'k) list) @ map snd d)" by simp
  from foldl_dict_set_fresh [OF this, of fst] show ?thesis
    by (simp add: split_def)
qed

lemma map_of_inverted_dict:
  assumes "distinct (map snd d)"
  shows "map_of (map (\<lambda>(k, v). (v, k)) d) x = Some i \<longleftrightarrow> (i, x) \<in> set d"
proof -
  have "distinct (map fst (map (\<lambda>(k, v). (v, k)) d))"
    using assms by (simp add: comp_def split_def)
  then have "map_of (map (\<lambda>(k, v). (v, k)) d) x = Some i
               \<longleftrightarrow> (x, i) \<in> set (map (\<lambda>(k, v). (v, k)) d)"
    by simp
  also have "\<dots> \<longleftrightarrow> (i, x) \<in> set d" by auto
  finally show ?thesis .
qed

lemma map_of_inverted_none:
  "x \<notin> snd ` set d \<Longrightarrow> map_of (foldl (\<lambda>r (k, v). dict_set r v k) r0 d) x = map_of r0 x"
  by (induction d arbitrary: r0) (auto simp: map_of_dict_set)

lemma similar_loop_ok:
  assumes "\<forall>i \<in> set indices. \<exists>it. map_of idm (int i) = Some it"
    and "\<forall>i \<in> set indices. int i \<noteq> idx \<longrightarrow> map_of idm (int i) \<noteq> Some iid"
    and "int (length out) < k" and "iid \<notin> set out"
  shows "\<exists>out'. similar_loop idm idx k out indices = Inr out'
           \<and> int (length out') \<le> k \<and> iid \<notin> set out'"
  using assms
proof (induction indices arbitrary: out)
  case Nil
  then show ?case by simp
next
  case (Cons i rest)
  show ?case
  proof (cases "int i = idx")
    case True
    with Cons show ?thesis by simp
  next
    case False
    from Cons.prems(1) obtain it where it: "map_of idm (int i) = Some it" by auto
    with Cons.prems(2) False have ne: "it \<noteq> iid" by auto
    show ?thesis
    proof (cases "k \<le> int (length (out @ [it]))")
      case True
      with Cons.prems(3,4) ne False it show ?thesis by (simp add: Let_def)
    next
      case stop: False
      then have "int (length (out @ [it])) < k" by simp
      moreover from Cons.prems(4) ne have "iid \<notin> set (out @ [it])" by simp
      ultimately have "\<exists>out'. similar_loop idm idx k (out @ [it]) rest = Inr out'
           \<and> int (length out') \<le> k \<and> iid \<notin> set out'"
        using Cons.prems(1,2) by (intro Cons.IH) auto
      with stop False it show ?thesis by (simp add: Let_def)
    qed
  qed
qed

lemma embed_similar_unknown:
  assumes "iid \<notin> snd ` set (id_map es)"
  shows "embed_similar kn es iid k = Inr []"
  using map_of_inverted_none [OF assms, of "[]"]
  by (simp add: embed_similar_def Let_def split: option.splits)

lemma embed_similar_known:
  assumes kn: "kneighbors_ok kn" and k: "0 < k"
    and es: "emb es = Some e" "nn es = Some e" and c: "consistent_store es"
    and known: "iid \<in> snd ` set (id_map es)"
  shows "\<exists>out. embed_similar kn es iid k = Inr out \<and> int (length out) \<le> k \<and> iid \<notin> set out"
proof -
  let ?N = "n_samples e"
  from c es have dk: "distinct (map fst (id_map es))"
    and keys: "fst ` set (id_map es) = int ` {..<?N}"
    and dv: "distinct (map snd (id_map es))"
    by (simp_all add: consistent_store_def)
  from known obtain idx where idx: "(idx, iid) \<in> set (id_map es)" by auto
  then have "idx \<in> int ` {..<?N}" using keys by force
  then have rng: "0 \<le> idx" "idx < int ?N" by auto
  then have N: "0 < ?N" by simp
  have look: "map_of (foldl (\<lambda>d (k, v). dict_set d v k) [] (id_map es)) iid = Some idx"
    unfolding inverted_dict [OF dv] map_of_inverted_dict [OF dv] by (rule idx)
  obtain vec where vec: "emb_row e idx = Inr vec"
    using rng by (simp add: emb_row_def Let_def)
  define n where "n = min (k + 1) (int ?N)"
  have n: "0 < n" "n \<le> int ?N" using k N by (simp_all add: n_def)
  then have nn: "nn_kneighbors kn e vec n = Inr (kn e vec (nat n))"
    by (simp add: nn_kneighbors_def)
  from kn n have ind: "set (kn e vec (nat n)) \<subseteq> {..<?N}"
    unfolding kneighbors_ok_def by (metis One_nat_def Suc_leI nat_le_iff zero_less_nat_eq)
  have a1: "\<forall>i \<in> set (kn e vec (nat n)). \<exists>it. map_of (id_map es) (int i) = Some it"
  proof
    fix i assume "i \<in> set (kn e vec (nat n))"
    with ind have "int i \<in> fst ` set (id_map es)" unfolding keys by auto
    then show "\<exists>it. map_of (id_map es) (int i) = Some it"
      by (metis domD dom_map_of_conv_image_fst)
  qed
  have a2: "\<forall>i \<in> set (kn e vec (nat n)). int i \<noteq> idx \<longrightarrow> map_of (id_map es) (int i) \<noteq> Some iid"
  proof (intro ballI impI notI)
    fix i assume "int i \<noteq> idx" "map_of (id_map es) (int i) = Some iid"
    then have "(int i, iid) \<in> set (id_map es)" by (auto dest: map_of_SomeD)
    with idx dv have "int i = idx"
      by (metis (no_types, lifting) distinct_map inj_onD snd_conv prod.inject)
    with \<open>int i \<noteq> idx\<close> show False by simp
  qed
  from similar_loop_ok [OF a1 a2, of "[]" k] k
  obtain out where "similar_loop (id_map es) idx k [] (kn e vec (nat n)) = Inr out"
    "int (length out) \<le> k" "iid \<notin> set out"
    by auto
  then show ?thesis
    unfolding n_def
    by (simp add: embed_similar_def es Let_def look vec nn [unfolded n_def])
qed

lemma by_id_fold:
  assumes "\<And>k v. map_of d k = Some v \<Longrightarrow> item_id v = k"
    and "map_of (foldl (\<lambda>d row. dict_set d (row_item_id row)
                       \<lparr>item_id = row_item_id row, title = row_title row,
                        description = row_description row\<rparr>) d rows) nid = Some it"
  shows "item_id it = nid"
  using assms
proof (induction rows arbitrary: d)
  case Nil
  then show ?case by simp
next
  case (Cons row rows)
  let ?d = "dict_set d (row_item_id row)
              \<lparr>item_id = row_item_id row, title = row_title row,
               description = row_description row\<rparr>"
  have "item_id v = k" if "map_of ?d k = Some v" for k v
  proof (cases "k = row_item_id row")
    case True
    with that show ?thesis by (auto simp: map_of_dict_set)
  next
    case False
    with that have "map_of d k = Some v" by (simp add: map_of_dict_set)
    then show ?thesis by (rule Cons.prems(1))
  qed
  moreover from Cons.prems(2) have "map_of (foldl (\<lambda>d row. dict_set d (row_item_id row)
                       \<lparr>item_id = row_item_id row, title = row_title row,
                        description = row_description row\<rparr>) ?d rows) nid = Some it"
    by simp
  ultimately show ?case by (rule Cons.IH)
qed

lemma by_id_key:
  assumes "map_of (by_id (items_repo_init rows)) nid = Some it"
  shows "item_id it = nid"
proof (rule by_id_fold [of "[]" rows nid it])
  show "\<And>k v. map_of [] k = Some v \<Longrightarrow> item_id v = k" by simp
  from assms show "map_of (foldl (\<lambda>d row. dict_set d (row_item_id row)
                       \<lparr>item_id = row_item_id row, title = row_title row,
                        description = row_description row\<rparr>) [] rows) nid = Some it"
    by (simp add: items_repo_init_def)
qed

lemma enrich_length:
  "length (concat (map (\<lambda>nid. case get_item repo nid of
                                    None \<Rightarrow> []
                                  | Some it \<Rightarrow> [\<lparr>res_item_id = item_id it, res_title = title it,
                                                 res_description = description it, res_score = None\<rparr>])
                           out)) \<le> length out"
  by (induction out) (simp_all split: option.splits)

lemma enrich_ids:
  assumes "r \<in> set (concat (map (\<lambda>nid. case get_item (items_repo_init rows) nid of
                                    None \<Rightarrow> []
                                  | Some it \<Rightarrow> [\<lparr>res_item_id = item_id it, res_title = title it,
                                                 res_description = description it, res_score = None\<rparr>])
                           out))"
  shows "res_item_id r \<in> set out"
proof -
  from assms obtain nid where nid: "nid \<in> set out"
    "r \<in> set (case get_item (items_repo_init rows) nid of
                 None \<Rightarrow> []
               | Some it \<Rightarrow> [\<lparr>res_item_id = item_id it, res_title = title it,
                              res_description = description it, res_score = None\<rparr>])"
    by auto
  then obtain it where "get_item (items_repo_init rows) nid = Some it"
    "res_item_id r = item_id it"
    by (cases "get_item (items_repo_init rows) nid") auto
  with nid(1) have "nid \<in> set out" "get_item (items_repo_init rows) nid = Some it"
    "res_item_id r = item_id it"
    by simp_all
  with by_id_key [of rows nid it] show ?thesis by (simp add: get_item_def)
qed

lemma embed_hybrid_init: "embed (hybrid_init b rows es) = es"
    "items (hybrid_init b rows es) = items_repo_init rows"
  by (simp_all add: hybrid_init_def Let_def)

lemma embedding_load_cases:
  assumes "embedding_load fs = Inr es"
  shows "(emb es = None \<and> nn es = None \<and> id_map es = [])
       \<or> (\<exists>e. emb es = Some e \<and> nn es = Some e)"
  using assms by (auto simp: embedding_load_def split: if_splits disk_file.splits list.splits)

lemma embedding_load_missing:
  assumes "embedding_load fs = Inr es"
    and "\<not> (path_exists (item_vectors_npy fs) \<and> path_exists (id_mapping_json fs))"
  shows "id_map es = []"
  using assms by (auto simp: embedding_load_def)

text \<open>
  C7 (as amended).  With a \<open>kneighbors\<close> that meets its contract, a store that loaded and a
  positive \<open>k\<close>: for an item of the id mapping, provided the mapping agrees with the vector
  table (one entry per vector, under the keys \<open>0 .. N-1\<close>) and names no item twice, both
  \<open>EmbeddingStore.similar\<close> and \<open>HybridRanker.similar\<close> return at most \<open>k\<close> items, none of them
  the queried item; for an item absent from the mapping, and whenever an artifact file is
  missing, both return the empty list.
\<close>

theorem similar_excludes_query:
  assumes "kneighbors_ok kn" and "0 < k" and "embedding_load fs = Inr es"
  shows "(consistent_store es \<and> iid \<in> snd ` set (id_map es) \<longrightarrow>
            (\<exists>out res. embed_similar kn es iid k = Inr out
               \<and> length out \<le> nat k \<and> iid \<notin> set out
               \<and> hybrid_similar kn (hybrid_init b rows es) iid k = Inr res
               \<and> length res \<le> nat k \<and> iid \<notin> res_item_id ` set res))
       \<and> (iid \<notin> snd ` set (id_map es) \<longrightarrow>
            embed_similar kn es iid k = Inr []
            \<and> hybrid_similar kn (hybrid_init b rows es) iid k = Inr [])
       \<and> (\<not> (path_exists (item_vectors_npy fs) \<and> path_exists (id_mapping_json fs)) \<longrightarrow>
            embed_similar kn es iid k = Inr []
            \<and> hybrid_similar kn (hybrid_init b rows es) iid k = Inr [])"
proof (intro conjI impI)
  have unknown: "embed_similar kn es iid k = Inr []
            \<and> hybrid_similar kn (hybrid_init b rows es) iid k = Inr []"
    if "iid \<notin> snd ` set (id_map es)"
    using embed_similar_unknown [OF that, of kn k]
    by (simp add: hybrid_similar_def embed_hybrid_init)
  {
    assume "iid \<notin> snd ` set (id_map es)"
    then show "embed_similar kn es iid k = Inr []"
      and "hybrid_similar kn (hybrid_init b rows es) iid k = Inr []"
      using unknown by simp_all
  }
  {
    assume "\<not> (path_exists (item_vectors_npy fs) \<and> path_exists (id_mapping_json fs))"
    from embedding_load_missing [OF assms(3) this]
    show "embed_similar kn es iid k = Inr []"
      and "hybrid_similar kn (hybrid_init b rows es) iid k = Inr []"
      using unknown by simp_all
  }
  {
    assume a: "consistent_store es \<and> iid \<in> snd ` set (id_map es)"
    then have "id_map es \<noteq> []" by auto
    with embedding_load_cases [OF assms(3)] obtain e where e: "emb es = Some e" "nn es = Some e"
      by auto
    from embed_similar_known [OF assms(1,2) e] a
    obtain out where out: "embed_similar kn es iid k = Inr out" "int (length out) \<le> k"
      "iid \<notin> set out"
      by blast
    define res where "res = concat (map (\<lambda>nid. case get_item (items_repo_init rows) nid of
                                    None \<Rightarrow> []
                                  | Some it \<Rightarrow> [\<lparr>res_item_id = item_id it, res_title = title it,
                                                 res_description = description it, res_score = None\<rparr>])
                           out)"
    have "hybrid_similar kn (hybrid_init b rows es) iid k = Inr res"
      by (simp add: hybrid_similar_def embed_hybrid_init out(1) res_def)
    moreover from out(2) have lo: "length out \<le> nat k" by simp
    moreover have "length res \<le> nat k"
      using enrich_length [of "items_repo_init rows" out] lo unfolding res_def by simp
    moreover have "iid \<notin> res_item_id ` set res"
    proof
      assume "iid \<in> res_item_id ` set res"
      then obtain r where "r \<in> set res" "res_item_id r = iid" by auto
      with enrich_ids [of r rows out] out(3) show False by (simp add: res_def)
    qed
    ultimately show "\<exists>out res. embed_similar kn es iid k = Inr out
               \<and> length out \<le> nat k \<and> iid \<notin> set out
               \<and> hybrid_similar kn (hybrid_init b rows es) iid k = Inr res
               \<and> length res \<le> nat k \<and> iid \<notin> res_item_id ` set res"
      using out(1,3) by (intro exI [of _ out] exI [of _ res]) simp
  }
qed

lemma shape_matrix:
  "shape (matrix rows) = [length rows, (case rows of [] \<Rightarrow> 0 | r # rs \<Rightarrow> length r)]"
  by (simp add: matrix_def)

lemma kneighbors_first_ok: "kneighbors_ok kneighbors_first"
  by (auto simp: kneighbors_ok_def kneighbors_first_def)

theorem similar_excludes_query_witness:
  "kneighbors_ok kneighbors_first
   \<and> embedding_load abc_emb_files = Inr abc_store
   \<and> consistent_store abc_store \<and> ''B'' \<in> snd ` set (id_map abc_store)
   \<and> (\<exists>out res. embed_similar kneighbors_first abc_store ''B'' 2 = Inr out
          \<and> length out \<le> nat 2 \<and> ''B'' \<notin> set out
          \<and> hybrid_similar kneighbors_first (hybrid_init overlap_scorer two_rows abc_store) ''B'' 2
              = Inr res
          \<and> length res \<le> nat 2 \<and> ''B'' \<notin> res_item_id ` set res)
   \<and> embed_similar kneighbors_first abc_store ''B'' 2 = Inr [''A'', ''C'']
   \<and> ''Z'' \<notin> snd ` set (id_map abc_store)
   \<and> embed_similar kneighbors_first abc_store ''Z'' 2 = Inr []"
proof -
  have h1: "kneighbors_ok kneighbors_first" by (rule kneighbors_first_ok)
  have h2: "(0::int) < 2" by simp
  have h3: "embedding_load abc_emb_files = Inr abc_store"
    by (simp add: embedding_load_def abc_emb_files_def abc_store_def shape_matrix)
  have "int ` {..<Suc (Suc (Suc 0))} = {0, 1, 2}"
    by (auto simp: lessThan_Suc)
  then have c: "consistent_store abc_store"
    by (simp add: consistent_store_def abc_store_def n_samples_def shape_matrix)
  have kB: "''B'' \<in> snd ` set (id_map abc_store)" by (simp add: abc_store_def)
  have kZ: "''Z'' \<notin> snd ` set (id_map abc_store)" by (simp add: abc_store_def)
  note t = similar_excludes_query [OF h1 h2 h3, of _ overlap_scorer two_rows]
  note a = t [of "''B''", THEN conjunct1, rule_format, OF conjI [OF c kB]]
  note z = t [of "''Z''", THEN conjunct2, THEN conjunct1, rule_format, OF kZ, THEN conjunct1]
  have v: "embed_similar kneighbors_first abc_store ''B'' 2 = Inr [''A'', ''C'']"
    by code_simp
  from h1 h3 c kB a v kZ z show ?thesis by blast
qed

text \<open>
  Without the provisos the claim fails.  Where the mapping names \<open>A\<close> for both vectors, the
  neighbours of \<open>A\<close> include \<open>A\<close>.  Where the mapping has an entry beyond the vectors, the query
  for that item raises \<open>IndexError\<close>.
\<close>

theorem similar_excludes_query_counterexample:
  "embedding_load dup_emb_files = Inr dup_store
   \<and> ''A'' \<in> snd ` set (id_map dup_store)
   \<and> embed_similar kneighbors_first dup_store ''A'' 1 = Inr [''A'']
   \<and> res_item_id ` set (case hybrid_similar kneighbors_first
                               (hybrid_init overlap_scorer two_rows dup_store) ''A'' 1 of
                          Inr res \<Rightarrow> res | Inl e \<Rightarrow> []) = {''A''}
   \<and> embedding_load short_emb_files = Inr short_store
   \<and> ''B'' \<in> snd ` set (id_map short_store)
   \<and> embed_similar kneighbors_first short_store ''B'' 1 = Inl IndexError"
proof (intro conjI)
  show "embedding_load dup_emb_files = Inr dup_store"
    by (simp add: embedding_load_def dup_emb_files_def dup_store_def shape_matrix)
  show "''A'' \<in> snd ` set (id_map dup_store)" by (simp add: dup_store_def)
  show "embed_similar kneighbors_first dup_store ''A'' 1 = Inr [''A'']"
    by code_simp
  have "hybrid_similar kneighbors_first (hybrid_init overlap_scorer two_rows dup_store) ''A'' 1
          = Inr [\<lparr>res_item_id = ''A'', res_title = ''Space Opera'',
                  res_description = ''a galaxy far away'', res_score = None\<rparr>]"
    by code_simp
  then show "res_item_id ` set (case hybrid_similar kneighbors_first
                               (hybrid_init overlap_scorer two_rows dup_store) ''A'' 1 of
                          Inr res \<Rightarrow> res | Inl e \<Rightarrow> []) = {''A''}"
    by simp
  show "embedding_load short_emb_files = Inr short_store"
    by (simp add: embedding_load_def short_emb_files_def short_store_def shape_matrix)
  show "''B'' \<in> snd ` set (id_map short_store)" by (simp add: short_store_def)
  show "embed_similar kneighbors_first short_store ''B'' 1 = Inl IndexError"
    by code_simp
qed

section \<open>The holdout of the evaluator\<close>

text \<open>
  What holds of the holdout whatever the columns: the users with at least two interactions
  contribute one pair each, and the evaluator's guard raises exactly when there is no such
  user.
\<close>

lemma holdout_users:
  "map fst (choose_holdout pick t)
     = filter (\<lambda>uid. 2 \<le> length (filter (\<lambda>r. r_user r = uid) (table_rows t)))
         (sort (remdups (map r_user (table_rows t))))"
proof -
  have "map fst (concat (map (\<lambda>uid. let g = filter (\<lambda>r. r_user r = uid) (table_rows t)
                         in if length g < 2 then [] else [(uid, r_item (test_row pick t g))]) us))
          = filter (\<lambda>uid. 2 \<le> length (filter (\<lambda>r. r_user r = uid) (table_rows t))) us" for us
    by (induction us) (simp_all add: Let_def)
  then show ?thesis by (simp add: choose_holdout_def)
qed

lemma holdout_one_pair_per_user: "distinct (map fst (choose_holdout pick t))"
  by (simp add: holdout_users)

lemma evaluate_cf_raises_iff:
  "evaluate_cf_holdout pick t = Inl ValueError
     \<longleftrightarrow> (\<forall>uid. length (filter (\<lambda>r. r_user r = uid) (table_rows t)) < 2)"
proof -
  have "choose_holdout pick t = [] \<longleftrightarrow> map fst (choose_holdout pick t) = []" by simp
  also have "\<dots> \<longleftrightarrow> (\<forall>uid \<in> set (map r_user (table_rows t)).
                        length (filter (\<lambda>r. r_user r = uid) (table_rows t)) < 2)"
    unfolding holdout_users by (auto simp: filter_empty_conv not_le)
  also have "\<dots> \<longleftrightarrow> (\<forall>uid. length (filter (\<lambda>r. r_user r = uid) (table_rows t)) < 2)"
  proof
    assume a: "\<forall>uid \<in> set (map r_user (table_rows t)).
                 length (filter (\<lambda>r. r_user r = uid) (table_rows t)) < 2"
    show "\<forall>uid. length (filter (\<lambda>r. r_user r = uid) (table_rows t)) < 2"
    proof
      fix uid
      show "length (filter (\<lambda>r. r_user r = uid) (table_rows t)) < 2"
      proof (cases "uid \<in> set (map r_user (table_rows t))")
        case True
        with a show ?thesis by blast
      next
        case False
        then have "filter (\<lambda>r. r_user r = uid) (table_rows t) = []"
          by (auto simp: filter_empty_conv)
        then show ?thesis by simp
      qed
    qed
  next
    assume "\<forall>uid. length (filter (\<lambda>r. r_user r = uid) (table_rows t)) < 2"
    then show "\<forall>uid \<in> set (map r_user (table_rows t)).
                 length (filter (\<lambda>r. r_user r = uid) (table_rows t)) < 2"
      by blast
  qed
  finally show ?thesis
    by (simp add: evaluate_cf_holdout_def Let_def)
qed

text \<open>
  C9, at the failing input.  The claim has the held-out interaction be the chronologically
  latest one when a timestamp column is present, as the docstring of \<open>_choose_holdout\<close> does.
  The table is read with \<open>dtype=str\<close> and, unlike the rating, the timestamp is never made a
  number, so \<open>sort_values\<close> compares strings: of the two interactions of \<open>u1\<close> the code holds
  out \<open>A\<close>, at second 999999999, although \<open>B\<close>, at second 1000000000, is the later one.
\<close>

theorem holdout_not_latest:
  "choose_holdout (\<lambda>n. 0) unix_table = [(''u1'', ''A'')]
   \<and> timestamp_value ''999999999'' < timestamp_value ''1000000000''"
proof
  show "choose_holdout (\<lambda>n. 0) unix_table = [(''u1'', ''A'')]"
    by code_simp
  show "timestamp_value ''999999999'' < timestamp_value ''1000000000''"
    by (simp add: timestamp_value_def)
qed

end
